theory Spec2Isabelle
  imports Complex_Main "HOL-Library.Word"
begin

section \<open>Data model of the drawing view\<close>

text \<open>
  The program is one Python module, \<^verbatim>\<open>multithreaddraw.py\<close>, whose class
  \<^verbatim>\<open>DrawingView\<close> holds the whole document. Python floats are idealised as
  \<^typ>\<open>real\<close>; Python's unbounded integers are \<^typ>\<open>nat\<close> where they count.
  A point is Qt's \<^verbatim>\<open>QPointF\<close>.
\<close>

datatype QPointF = QPointF (px: real) (py: real)

datatype QColor = QColor (red: nat) (green: nat) (blue: nat) (alpha: nat)

definition black :: QColor where
  "black = QColor 0 0 0 255"

definition white :: QColor where
  "white = QColor 255 255 255 255"

definition transparent :: QColor where
  "transparent = QColor 0 0 0 0"

text \<open>
  \<^verbatim>\<open>QPen(color, width, Qt.SolidLine, Qt.RoundCap, Qt.RoundJoin)\<close>: the line style,
  cap and join are the same constants at every construction, so a pen is its colour and
  width.
\<close>

datatype QPen = QPen (color_of: QColor) (width_of: real)

text \<open>
  A \<^verbatim>\<open>QPainterPath\<close> is modelled by the drawing calls made on it, in order:
  each \<^verbatim>\<open>moveTo\<close>, \<^verbatim>\<open>lineTo\<close>, \<^verbatim>\<open>quadTo\<close> and
  \<^verbatim>\<open>cubicTo\<close> of the program appends one command. The element list Qt derives
  from these calls (\<^verbatim>\<open>elementCount\<close>, \<^verbatim>\<open>elementAt\<close>) is
  \<open>path_elements\<close> below.
\<close>

datatype path_cmd =
    MoveTo QPointF
  | LineTo QPointF
  | QuadTo QPointF QPointF
  | CubicTo QPointF QPointF QPointF

type_synonym QPainterPath = "path_cmd list"

definition moveTo :: "QPointF \<Rightarrow> QPainterPath \<Rightarrow> QPainterPath" where
  "moveTo p path = path @ [MoveTo p]"

definition lineTo :: "QPointF \<Rightarrow> QPainterPath \<Rightarrow> QPainterPath" where
  "lineTo p path = path @ [LineTo p]"

definition quadTo :: "QPointF \<Rightarrow> QPointF \<Rightarrow> QPainterPath \<Rightarrow> QPainterPath" where
  "quadTo c e path = path @ [QuadTo c e]"

definition cubicTo :: "QPointF \<Rightarrow> QPointF \<Rightarrow> QPointF \<Rightarrow> QPainterPath \<Rightarrow> QPainterPath" where
  "cubicTo c1 c2 e path = path @ [CubicTo c1 c2 e]"

text \<open>\<^verbatim>\<open>QRectF(x, y, w, h)\<close>; \<^verbatim>\<open>QRectF()\<close> is the null rectangle.\<close>

datatype QRectF = QRectF (rect_x: real) (rect_y: real) (rect_w: real) (rect_h: real)

definition null_rect :: QRectF where
  "null_rect = QRectF 0 0 0 0"

definition isNull :: "QRectF \<Rightarrow> bool" where
  "isNull r = (rect_w r = 0 \<and> rect_h r = 0)"

definition isEmpty :: "QRectF \<Rightarrow> bool" where
  "isEmpty r = (rect_w r \<le> 0 \<or> rect_h r \<le> 0)"

text \<open>
  \<^verbatim>\<open>QRectF.united\<close>: a null rectangle is the unit, otherwise the smallest
  rectangle around both (a negative width or height extends to the left or upwards).
\<close>

definition united :: "QRectF \<Rightarrow> QRectF \<Rightarrow> QRectF" where
  "united a b =
    (if isNull a then b
     else if isNull b then a
     else
       let al = (if rect_w a < 0 then rect_x a + rect_w a else rect_x a);
           ar = (if rect_w a < 0 then rect_x a else rect_x a + rect_w a);
           bl = (if rect_w b < 0 then rect_x b + rect_w b else rect_x b);
           br = (if rect_w b < 0 then rect_x b else rect_x b + rect_w b);
           a_top = (if rect_h a < 0 then rect_y a + rect_h a else rect_y a);
           a_bot = (if rect_h a < 0 then rect_y a else rect_y a + rect_h a);
           b_top = (if rect_h b < 0 then rect_y b + rect_h b else rect_y b);
           b_bot = (if rect_h b < 0 then rect_y b else rect_y b + rect_h b);
           x_min = min al bl; x_max = max ar br;
           y_min = min a_top b_top; y_max = max a_bot b_bot
       in QRectF x_min y_min (x_max - x_min) (y_max - y_min))"

text \<open>
  A pixel buffer (\<^verbatim>\<open>QPixmap\<close>, \<^verbatim>\<open>QImage\<close>): its size and the colour
  of every pixel. \<^verbatim>\<open>QPixmap.toImage\<close> and \<^verbatim>\<open>QPixmap.fromImage\<close>
  keep both, so one type serves for the two classes.
\<close>

record QImage =
  img_width :: nat
  img_height :: nat
  img_pixel :: "nat \<Rightarrow> nat \<Rightarrow> QColor"

type_synonym QPixmap = QImage

definition new_pixmap :: "nat \<Rightarrow> nat \<Rightarrow> QPixmap" where
  "new_pixmap w h = \<lparr>img_width = w, img_height = h, img_pixel = (\<lambda>x y. black)\<rparr>"

definition fill :: "QColor \<Rightarrow> QPixmap \<Rightarrow> QPixmap" where
  "fill c pm = pm\<lparr>img_pixel := (\<lambda>x y. c)\<rparr>"

definition pixmap_rect :: "QPixmap \<Rightarrow> QRectF" where
  "pixmap_rect pm = QRectF 0 0 (real (img_width pm)) (real (img_height pm))"

text \<open>
  What the program takes from Qt without computing it itself: painting a stroked path
  into a pixel buffer (\<open>drawPath antialiasing translation pen path target\<close>), painting
  one buffer onto another (\<open>drawPixmap translation source target\<close>), cutting a
  rectangle \<open>(x, y, w, h)\<close> out of a buffer, the bounding rectangle of a path, and the
  PNG codec (\<open>png_load\<close> is \<open>None\<close> where \<^verbatim>\<open>loadFromData\<close> fails). They
  are parameters of the model.
\<close>

record Qt =
  drawPath :: "bool \<Rightarrow> QPointF \<Rightarrow> QPen \<Rightarrow> QPainterPath \<Rightarrow> QPixmap \<Rightarrow> QPixmap"
  drawPixmap :: "QPointF \<Rightarrow> QPixmap \<Rightarrow> QPixmap \<Rightarrow> QPixmap"
  copy_rect :: "int \<times> int \<times> int \<times> int \<Rightarrow> QPixmap \<Rightarrow> QPixmap"
  boundingRect :: "QPainterPath \<Rightarrow> QRectF"
  png_save :: "QPixmap \<Rightarrow> 8 word list"
  png_load :: "8 word list \<Rightarrow> QImage option"

text \<open>A Python \<^verbatim>\<open>str\<close> is its sequence of code points.\<close>

type_synonym pystr = "nat list"

definition str :: "string \<Rightarrow> pystr" where
  "str cs = map of_char cs"

record pin =
  pin_name :: pystr
  pin_pos :: QPointF

datatype py_error = IndexError | ValueError | UnicodeEncodeError | UnicodeDecodeError

text \<open>
  The fields of \<^verbatim>\<open>DrawingView\<close> that carry the document and the gesture state.
  The scene items (\<^verbatim>\<open>vector_item\<close>, \<^verbatim>\<open>raster_item\<close>,
  \<^verbatim>\<open>background_rect\<close>) only mirror \<open>vector_path\<close>, \<open>raster_pixmap\<close>
  and \<open>background_color\<close> for display.
\<close>

record DrawingView =
  current_pen_width :: real
  pen_color :: QColor
  pen :: QPen
  last_points :: "QPointF list"
  drawing :: bool
  vector_path :: QPainterPath
  raster_pixmap :: QPixmap
  background_visible :: bool
  background_color :: QColor
  pins :: "pin list"
  use_tablet :: bool
  antialiasing_enabled :: bool
  stroke_points :: "QPointF list"
  stroke_pen_widths :: "real list"
  raster_bounding_rect :: QRectF

section \<open>Smoothing engine and gesture handling\<close>

text \<open>
  \<^verbatim>\<open>deque(maxlen=3).append\<close>: a full deque drops its oldest entry.
\<close>

definition deque_append :: "nat \<Rightarrow> 'a list \<Rightarrow> 'a \<Rightarrow> 'a list" where
  "deque_append maxlen d v = (if length d = maxlen then tl d @ [v] else d @ [v])"

definition update_pen :: "DrawingView \<Rightarrow> DrawingView" where
  "update_pen s = s\<lparr>pen := QPen (pen_color s) (current_pen_width s)\<rparr>"

definition smooth_path :: "QPointF \<Rightarrow> DrawingView \<Rightarrow> DrawingView" where
  "smooth_path new_point s =
    (let s1 = s\<lparr>last_points := deque_append 3 (last_points s) new_point\<rparr> in
     case last_points s1 of
       [p0, p1, p2] \<Rightarrow>
         (let cpx = px p1; cpy = py p1
          in s1\<lparr>vector_path := quadTo (QPointF cpx cpy) p2 (vector_path s1)\<rparr>)
     | _ \<Rightarrow> s1)"

text \<open>Python's \<^verbatim>\<open>max(a, b)\<close> returns \<open>a\<close> unless \<open>b\<close> is greater.\<close>

definition py_max :: "real \<Rightarrow> real \<Rightarrow> real" where
  "py_max a b = (if b > a then b else a)"

text \<open>
  \<^verbatim>\<open>process_raster_stroke\<close>: the stroke is painted into the raster buffer and its
  bounding rectangle joins the raster bounding box. \<^verbatim>\<open>self.stroke_points[0]\<close>
  raises \<^verbatim>\<open>IndexError\<close> on an empty list; the loop reads indices
  \<open>i - 1\<close> and \<open>i\<close> for \<open>1 \<le> i < len\<close> only.
\<close>

definition stroke_path :: "QPointF list \<Rightarrow> QPointF \<Rightarrow> QPainterPath" where
  "stroke_path pts first =
    fold (\<lambda>i path.
            let p0 = pts ! (i - 1); p1 = pts ! i;
                cp = QPointF ((px p0 + px p1) / 2) ((py p0 + py p1) / 2)
            in quadTo cp p1 path)
         [1..<length pts] (moveTo first [])"

definition process_raster_stroke :: "Qt \<Rightarrow> DrawingView \<Rightarrow> py_error + DrawingView" where
  "process_raster_stroke qt s =
    (case stroke_points s of
       [] \<Rightarrow> Inl IndexError
     | first # _ \<Rightarrow>
         let path = stroke_path (stroke_points s) first;
             pen' = QPen (pen_color s) (current_pen_width s);
             s1 = s\<lparr>raster_pixmap :=
                     drawPath qt True (QPointF 0 0) pen' path (raster_pixmap s)\<rparr>;
             stroke_bounding_rect = boundingRect qt path
         in Inr (if isNull (raster_bounding_rect s1)
                 then s1\<lparr>raster_bounding_rect := stroke_bounding_rect\<rparr>
                 else s1\<lparr>raster_bounding_rect :=
                           united (raster_bounding_rect s1) stroke_bounding_rect\<rparr>))"

datatype tablet_type = TabletPress | TabletMove | TabletRelease | TabletOther

record tablet_event =
  tablet_type_of :: tablet_type
  posF :: QPointF
  pressure :: real

definition tabletEvent :: "Qt \<Rightarrow> tablet_event \<Rightarrow> DrawingView \<Rightarrow> py_error + DrawingView" where
  "tabletEvent qt event s0 =
    (let s = s0\<lparr>use_tablet := True\<rparr> in
     if tablet_type_of event = TabletPress then
       let s1 = s\<lparr>last_points := [], stroke_points := [], stroke_pen_widths := [],
                   drawing := True\<rparr>;
           point = posF event;
           s2 = s1\<lparr>last_points := deque_append 3 (last_points s1) point\<rparr>;
           s3 = s2\<lparr>vector_path := moveTo point (vector_path s2)\<rparr>;
           s4 = s3\<lparr>stroke_points := stroke_points s3 @ [point]\<rparr>;
           s5 = s4\<lparr>current_pen_width := py_max 1 (pressure event * 10)\<rparr>;
           s6 = s5\<lparr>stroke_pen_widths := stroke_pen_widths s5 @ [current_pen_width s5]\<rparr>
       in Inr (update_pen s6)
     else if tablet_type_of event = TabletMove \<and> drawing s then
       let point = posF event;
           s1 = s\<lparr>current_pen_width := py_max 1 (pressure event * 10)\<rparr>;
           s2 = s1\<lparr>stroke_pen_widths := stroke_pen_widths s1 @ [current_pen_width s1]\<rparr>;
           s3 = smooth_path point (update_pen s2)
       in Inr (s3\<lparr>stroke_points := stroke_points s3 @ [point]\<rparr>)
     else if tablet_type_of event = TabletRelease then
       (if drawing s
        then (case process_raster_stroke qt s of
                Inl e \<Rightarrow> Inl e
              | Inr s1 \<Rightarrow> Inr (s1\<lparr>drawing := False\<rparr>))
        else Inr (s\<lparr>drawing := False\<rparr>))
     else Inr s)"

text \<open>
  A mouse event carries its button and the scene position of \<^verbatim>\<open>event.pos()\<close>
  (\<^verbatim>\<open>mapToScene\<close>). Where a handler passes the event on to
  \<^verbatim>\<open>QGraphicsView\<close>, no field of the model changes.
\<close>

datatype mouse_button = LeftButton | OtherButton

record mouse_event =
  button :: mouse_button
  scene_pos :: QPointF

definition mousePressEvent :: "mouse_event \<Rightarrow> DrawingView \<Rightarrow> py_error + DrawingView" where
  "mousePressEvent event s =
    (if \<not> use_tablet s \<and> button event = LeftButton then
       let s1 = s\<lparr>last_points := [], stroke_points := [], stroke_pen_widths := [],
                   drawing := True\<rparr>;
           point = scene_pos event;
           s2 = s1\<lparr>last_points := deque_append 3 (last_points s1) point\<rparr>;
           s3 = s2\<lparr>vector_path := moveTo point (vector_path s2)\<rparr>;
           s4 = s3\<lparr>stroke_points := stroke_points s3 @ [point]\<rparr>
       in Inr (update_pen s4)
     else Inr s)"

definition mouseMoveEvent :: "mouse_event \<Rightarrow> DrawingView \<Rightarrow> py_error + DrawingView" where
  "mouseMoveEvent event s =
    (if \<not> use_tablet s \<and> drawing s then
       let point = scene_pos event;
           s1 = smooth_path point (update_pen s)
       in Inr (s1\<lparr>stroke_points := stroke_points s1 @ [point]\<rparr>)
     else Inr s)"

definition mouseReleaseEvent :: "Qt \<Rightarrow> mouse_event \<Rightarrow> DrawingView \<Rightarrow> py_error + DrawingView" where
  "mouseReleaseEvent qt event s =
    (if \<not> use_tablet s \<and> button event = LeftButton \<and> drawing s then
       (if drawing s
        then (case process_raster_stroke qt s of
                Inl e \<Rightarrow> Inl e
              | Inr s1 \<Rightarrow> Inr (s1\<lparr>drawing := False\<rparr>))
        else Inr (s\<lparr>drawing := False\<rparr>))
     else Inr s)"

text \<open>The events the view receives, and a run of the view over a sequence of them.\<close>

datatype event =
    Tablet tablet_event
  | MousePress mouse_event
  | MouseMove mouse_event
  | MouseRelease mouse_event

fun handle_event :: "Qt \<Rightarrow> event \<Rightarrow> DrawingView \<Rightarrow> py_error + DrawingView" where
  "handle_event qt (Tablet e) s = tabletEvent qt e s"
| "handle_event qt (MousePress e) s = mousePressEvent e s"
| "handle_event qt (MouseMove e) s = mouseMoveEvent e s"
| "handle_event qt (MouseRelease e) s = mouseReleaseEvent qt e s"

fun run_events :: "Qt \<Rightarrow> event list \<Rightarrow> DrawingView \<Rightarrow> py_error + DrawingView" where
  "run_events qt [] s = Inr s"
| "run_events qt (e # es) s =
    (case handle_event qt e s of
       Inl err \<Rightarrow> Inl err
     | Inr s1 \<Rightarrow> run_events qt es s1)"

text \<open>
  A stylus gesture as the view receives it: a press at the first sample, then one move per
  further sample (position and pressure).
\<close>

definition tablet_press :: "QPointF \<Rightarrow> real \<Rightarrow> event" where
  "tablet_press p pr = Tablet \<lparr>tablet_type_of = TabletPress, posF = p, pressure = pr\<rparr>"

definition tablet_move :: "QPointF \<times> real \<Rightarrow> event" where
  "tablet_move m = Tablet \<lparr>tablet_type_of = TabletMove, posF = fst m, pressure = snd m\<rparr>"

definition tablet_release :: "QPointF \<Rightarrow> real \<Rightarrow> event" where
  "tablet_release p pr = Tablet \<lparr>tablet_type_of = TabletRelease, posF = p, pressure = pr\<rparr>"

definition mouse_press :: "QPointF \<Rightarrow> event" where
  "mouse_press p = MousePress \<lparr>button = LeftButton, scene_pos = p\<rparr>"

definition mouse_move :: "QPointF \<Rightarrow> event" where
  "mouse_move p = MouseMove \<lparr>button = LeftButton, scene_pos = p\<rparr>"

text \<open>
  The curve segments a stroke of raw points \<open>pts\<close> is expected to give: one per
  consecutive triple, through its middle point to its last.
\<close>

definition segments_of :: "QPointF list \<Rightarrow> path_cmd list" where
  "segments_of pts = map (\<lambda>k. QuadTo (pts ! (k + 1)) (pts ! (k + 2))) [0..<length pts - 2]"

text \<open>What one call of \<open>smooth_path\<close> adds to the path, by the window it leaves.\<close>

definition emitted :: "QPointF list \<Rightarrow> path_cmd list" where
  "emitted w = (case w of [p0, p1, p2] \<Rightarrow> [QuadTo p1 p2] | _ \<Rightarrow> [])"

fun window_run :: "QPointF list \<Rightarrow> QPointF list \<Rightarrow> path_cmd list" where
  "window_run w [] = []"
| "window_run w (p # ps) = emitted (deque_append 3 w p) @ window_run (deque_append 3 w p) ps"

fun triples :: "QPointF list \<Rightarrow> path_cmd list" where
  "triples (a # b # c # r) = QuadTo b c # triples (b # c # r)"
| "triples _ = []"

section \<open>Canvas commands and export\<close>

definition toggle_background :: "DrawingView \<Rightarrow> DrawingView" where
  "toggle_background s =
    (if background_visible s
     then s\<lparr>background_color := transparent, background_visible := False\<rparr>
     else s\<lparr>background_color := white, background_visible := True\<rparr>)"

definition clear_canvas :: "DrawingView \<Rightarrow> DrawingView" where
  "clear_canvas s =
    s\<lparr>vector_path := [], raster_pixmap := fill transparent (raster_pixmap s),
      raster_bounding_rect := null_rect\<rparr>"

text \<open>
  \<^verbatim>\<open>QImage.pixelColor\<close> and \<^verbatim>\<open>QImage.setPixelColor\<close>; Qt ignores a write
  outside the image.
\<close>

definition pixelColor :: "QImage \<Rightarrow> nat \<Rightarrow> nat \<Rightarrow> QColor" where
  "pixelColor img x y = img_pixel img x y"

definition setPixelColor :: "nat \<Rightarrow> nat \<Rightarrow> QColor \<Rightarrow> QImage \<Rightarrow> QImage" where
  "setPixelColor x y c img =
    (if x < img_width img \<and> y < img_height img
     then img\<lparr>img_pixel := (img_pixel img)(x := (img_pixel img x)(y := c))\<rparr>
     else img)"

text \<open>
  The binarisation loop of \<^verbatim>\<open>save_raster_image\<close>. Python's \<^verbatim>\<open>/\<close> is true
  division.
\<close>

definition brightness :: "QColor \<Rightarrow> real" where
  "brightness color = real (red color + green color + blue color) / 3"

definition binarize_pixel :: "nat \<Rightarrow> nat \<Rightarrow> QImage \<Rightarrow> QImage" where
  "binarize_pixel y x img =
    (let color = pixelColor img x y
     in if brightness color < 128
        then setPixelColor x y black img
        else setPixelColor x y white img)"

definition binarize :: "QImage \<Rightarrow> QImage" where
  "binarize img =
    fold (\<lambda>y cur. fold (binarize_pixel y) [0..<img_width cur] cur) [0..<img_height img] img"

text \<open>\<^verbatim>\<open>QRectF.toAlignedRect\<close>: the smallest integer rectangle \<open>(x, y, w, h)\<close> around it.\<close>

definition toAlignedRect :: "QRectF \<Rightarrow> int \<times> int \<times> int \<times> int" where
  "toAlignedRect r =
    (let xmin = \<lfloor>rect_x r\<rfloor>; xmax = \<lceil>rect_x r + rect_w r\<rceil>;
         ymin = \<lfloor>rect_y r\<rfloor>; ymax = \<lceil>rect_y r + rect_h r\<rceil>
     in (xmin, ymin, xmax - xmin, ymax - ymin))"

text \<open>
  The temporary buffer of \<^verbatim>\<open>save_raster_image\<close> after both layers are painted, and
  the image the function writes (\<open>None\<close>: nothing to save, no file is written).
\<close>

definition render_export :: "Qt \<Rightarrow> DrawingView \<Rightarrow> int \<times> int \<times> int \<times> int \<Rightarrow> QPixmap" where
  "render_export qt s rect =
    (case rect of (x0, y0, w, h) \<Rightarrow>
       let temp_pixmap = fill (background_color s) (new_pixmap (nat w) (nat h));
           shift = QPointF (- real_of_int x0) (- real_of_int y0);
           with_raster = drawPixmap qt shift (copy_rect qt rect (raster_pixmap s)) temp_pixmap
       in drawPath qt (antialiasing_enabled s) shift (pen s) (vector_path s) with_raster)"

definition save_raster_image :: "Qt \<Rightarrow> DrawingView \<Rightarrow> QImage option" where
  "save_raster_image qt s =
    (let vector_bounding_rect = boundingRect qt (vector_path s);
         total_bounding_rect = united vector_bounding_rect (raster_bounding_rect s)
     in if isNull total_bounding_rect \<or> isEmpty total_bounding_rect then None
        else Some (binarize (render_export qt s (toAlignedRect total_bounding_rect))))"

section \<open>Pins and settings\<close>

definition default_pin :: pin where
  "default_pin = \<lparr>pin_name = str ''Default Pin'', pin_pos = QPointF 0 0\<rparr>"

definition add_pin :: "pystr \<Rightarrow> QPointF \<Rightarrow> DrawingView \<Rightarrow> DrawingView" where
  "add_pin name pos s = s\<lparr>pins := pins s @ [\<lparr>pin_name = name, pin_pos = pos\<rparr>]\<rparr>"

definition remove_pin :: "pystr \<Rightarrow> DrawingView \<Rightarrow> DrawingView" where
  "remove_pin name s = s\<lparr>pins := filter (\<lambda>pin. pin_name pin \<noteq> name) (pins s)\<rparr>"

definition get_pins :: "DrawingView \<Rightarrow> pin list" where
  "get_pins s = pins s"

text \<open>
  The settings file \<^verbatim>\<open>rvsettings.ini\<close> as \<^verbatim>\<open>configparser\<close> presents it: each
  section is optional. A pin's value is \<open>None\<close> where it is not two floats separated by
  a comma, and a view centre or a flag is \<open>None\<close> where it does not parse; the program
  raises \<^verbatim>\<open>ValueError\<close> there.
\<close>

record config =
  cfg_pins :: "(pystr \<times> QPointF option) list option"
  cfg_view :: "QPointF option option"
  cfg_settings :: "(bool option \<times> bool option) option"

fun load_pins :: "(pystr \<times> QPointF option) list \<Rightarrow> DrawingView \<Rightarrow> py_error + DrawingView" where
  "load_pins [] s = Inr s"
| "load_pins ((name, v) # rest) s =
    (case v of
       None \<Rightarrow> Inl ValueError
     | Some pos \<Rightarrow> load_pins rest (s\<lparr>pins := pins s @ [\<lparr>pin_name = name, pin_pos = pos\<rparr>]\<rparr>))"

definition load_view :: "QPointF option option \<Rightarrow> DrawingView \<Rightarrow> py_error + DrawingView" where
  "load_view v s = (case v of Some None \<Rightarrow> Inl ValueError | _ \<Rightarrow> Inr s)"

definition load_flags :: "(bool option \<times> bool option) option \<Rightarrow> DrawingView \<Rightarrow> py_error + DrawingView" where
  "load_flags v s =
    (case v of
       None \<Rightarrow> Inr s
     | Some (None, _) \<Rightarrow> Inl ValueError
     | Some (Some bg_visible, aa) \<Rightarrow>
         let s1 = s\<lparr>background_visible := bg_visible,
                     background_color := (if bg_visible then white else transparent)\<rparr>
         in (case aa of
               None \<Rightarrow> Inl ValueError
             | Some a \<Rightarrow> Inr (s1\<lparr>antialiasing_enabled := a\<rparr>)))"

definition load_settings :: "config option \<Rightarrow> DrawingView \<Rightarrow> py_error + DrawingView" where
  "load_settings file s =
    (case file of
       None \<Rightarrow> Inr s
     | Some cfg \<Rightarrow>
         (case (case cfg_pins cfg of
                  None \<Rightarrow> Inr s
                | Some entries \<Rightarrow> load_pins entries (s\<lparr>pins := []\<rparr>)) of
            Inl e \<Rightarrow> Inl e
          | Inr s1 \<Rightarrow>
              (case load_view (cfg_view cfg) s1 of
                 Inl e \<Rightarrow> Inl e
               | Inr s2 \<Rightarrow> load_flags (cfg_settings cfg) s2)))"

text \<open>
  \<^verbatim>\<open>DrawingView.__init__\<close>: the fields as the constructor sets them, then the
  settings file, if there is one.
\<close>

definition fresh_view :: DrawingView where
  "fresh_view =
    \<lparr>current_pen_width = 2, pen_color = black, pen = QPen black 2, last_points = [],
     drawing = False, vector_path = [],
     raster_pixmap = fill transparent (new_pixmap 10000 10000),
     background_visible = True, background_color = white, pins = [] @ [default_pin],
     use_tablet = False, antialiasing_enabled = False, stroke_points = [],
     stroke_pen_widths = [], raster_bounding_rect = null_rect\<rparr>"

definition init_view :: "config option \<Rightarrow> py_error + DrawingView" where
  "init_view file = load_settings file fresh_view"

section \<open>Persistence codec\<close>

text \<open>
  \<^verbatim>\<open>str.encode('utf-8')\<close> and \<^verbatim>\<open>bytes.decode('utf-8')\<close> (both strict):
  encoding fails on a surrogate code point, decoding on anything that is not the UTF-8 form
  of a code point (a stray or missing continuation byte, an overlong form, a surrogate,
  a value above U+10FFFF). \<open>None\<close> stands for the exception.
\<close>

definition encode_code_point :: "nat \<Rightarrow> 8 word list option" where
  "encode_code_point c =
    (if c < 0x80 then Some [of_nat c]
     else if c < 0x800 then Some [of_nat (0xC0 + c div 64), of_nat (0x80 + c mod 64)]
     else if c < 0x10000 then
       (if 0xD800 \<le> c \<and> c < 0xE000 then None
        else Some [of_nat (0xE0 + c div 4096), of_nat (0x80 + c div 64 mod 64),
                   of_nat (0x80 + c mod 64)])
     else if c < 0x110000 then
       Some [of_nat (0xF0 + c div 262144), of_nat (0x80 + c div 4096 mod 64),
             of_nat (0x80 + c div 64 mod 64), of_nat (0x80 + c mod 64)]
     else None)"

fun utf8_encode :: "pystr \<Rightarrow> 8 word list option" where
  "utf8_encode [] = Some []"
| "utf8_encode (c # cs) =
    (case encode_code_point c of
       None \<Rightarrow> None
     | Some bs \<Rightarrow> (case utf8_encode cs of None \<Rightarrow> None | Some rest \<Rightarrow> Some (bs @ rest)))"

definition continuation :: "8 word \<Rightarrow> bool" where
  "continuation b = (0x80 \<le> unat b \<and> unat b < 0xC0)"

fun utf8_decode :: "8 word list \<Rightarrow> pystr option" where
  "utf8_decode [] = Some []"
| "utf8_decode (b0 # bs) =
    (if unat b0 < 0x80 then map_option (Cons (unat b0)) (utf8_decode bs)
     else if 0xC2 \<le> unat b0 \<and> unat b0 < 0xE0 then
       (case bs of
          b1 # rest \<Rightarrow>
            if continuation b1
            then map_option (Cons ((unat b0 - 0xC0) * 64 + (unat b1 - 0x80))) (utf8_decode rest)
            else None
        | _ \<Rightarrow> None)
     else if 0xE0 \<le> unat b0 \<and> unat b0 < 0xF0 then
       (case bs of
          b1 # b2 # rest \<Rightarrow>
            let c = (unat b0 - 0xE0) * 4096 + (unat b1 - 0x80) * 64 + (unat b2 - 0x80)
            in if continuation b1 \<and> continuation b2 \<and> 0x800 \<le> c
                  \<and> \<not> (0xD800 \<le> c \<and> c < 0xE000)
               then map_option (Cons c) (utf8_decode rest)
               else None
        | _ \<Rightarrow> None)
     else if 0xF0 \<le> unat b0 \<and> unat b0 < 0xF5 then
       (case bs of
          b1 # b2 # b3 # rest \<Rightarrow>
            let c = (unat b0 - 0xF0) * 262144 + (unat b1 - 0x80) * 4096
                    + (unat b2 - 0x80) * 64 + (unat b3 - 0x80)
            in if continuation b1 \<and> continuation b2 \<and> continuation b3
                  \<and> 0x10000 \<le> c \<and> c < 0x110000
               then map_option (Cons c) (utf8_decode rest)
               else None
        | _ \<Rightarrow> None)
     else None)"

text \<open>
  A \<^verbatim>\<open>QDataStream\<close> on a file, at the level of the fields written to it: every
  write appends one field, every read takes the next one. \<^verbatim>\<open>writeBytes\<close> writes
  the length of its data with the data, \<^verbatim>\<open>writeRawData\<close> the data alone, and
  \<^verbatim>\<open>readRawData\<close> reads at most the number of bytes it is asked for: from a raw
  field of that length all of it, and from one of another length what there is of it, after
  which what follows in the file no longer lines up with the fields and nothing more can
  be read. An integer is stored in the width of its field. A read that does not find its
  field (the data ends, or the file is not of this format) fails as a read at the end of
  the data does: it yields zero and nothing more can be read. The program never looks at
  the status of the stream.
\<close>

datatype field =
    U32 "32 word"
  | U8 "8 word"
  | Dbl real
  | Bytes "8 word list"
  | Raw "8 word list"
  | Bool bool

type_synonym QDataStream = "field list"

definition writeUInt32 :: "nat \<Rightarrow> QDataStream \<Rightarrow> QDataStream" where
  "writeUInt32 n stream = stream @ [U32 (of_nat n)]"

definition writeUInt8 :: "nat \<Rightarrow> QDataStream \<Rightarrow> QDataStream" where
  "writeUInt8 n stream = stream @ [U8 (of_nat n)]"

definition writeDouble :: "real \<Rightarrow> QDataStream \<Rightarrow> QDataStream" where
  "writeDouble v stream = stream @ [Dbl v]"

definition writeBytes :: "8 word list \<Rightarrow> QDataStream \<Rightarrow> QDataStream" where
  "writeBytes bs stream = stream @ [Bytes bs]"

definition writeRawData :: "8 word list \<Rightarrow> QDataStream \<Rightarrow> QDataStream" where
  "writeRawData bs stream = stream @ [Raw bs]"

definition writeBool :: "bool \<Rightarrow> QDataStream \<Rightarrow> QDataStream" where
  "writeBool b stream = stream @ [Bool b]"

fun readUInt32 :: "QDataStream \<Rightarrow> nat \<times> QDataStream" where
  "readUInt32 (U32 w # rest) = (unat w, rest)"
| "readUInt32 _ = (0, [])"

fun readUInt8 :: "QDataStream \<Rightarrow> nat \<times> QDataStream" where
  "readUInt8 (U8 w # rest) = (unat w, rest)"
| "readUInt8 _ = (0, [])"

fun readDouble :: "QDataStream \<Rightarrow> real \<times> QDataStream" where
  "readDouble (Dbl v # rest) = (v, rest)"
| "readDouble _ = (0, [])"

fun readBytes :: "QDataStream \<Rightarrow> 8 word list \<times> QDataStream" where
  "readBytes (Bytes bs # rest) = (bs, rest)"
| "readBytes _ = ([], [])"

fun readRawData :: "nat \<Rightarrow> QDataStream \<Rightarrow> 8 word list \<times> QDataStream" where
  "readRawData len (Raw bs # rest) =
    (if len = length bs then (bs, rest) else (take len bs, []))"
| "readRawData len _ = ([], [])"

fun readBool :: "QDataStream \<Rightarrow> bool \<times> QDataStream" where
  "readBool (Bool b # rest) = (b, rest)"
| "readBool _ = (False, [])"

text \<open>
  The elements of a \<^verbatim>\<open>QPainterPath\<close>, as \<^verbatim>\<open>elementAt\<close> returns them:
  \<open>(type, x, y)\<close> with type 0 for \<^verbatim>\<open>MoveToElement\<close>, 1 for
  \<^verbatim>\<open>LineToElement\<close>, 2 for \<^verbatim>\<open>CurveToElement\<close> and 3 for
  \<^verbatim>\<open>CurveToDataElement\<close>. This is Qt's representation: a path that has data
  starts with a move (to the origin, if nothing else); a move after a move replaces it; a
  line to the current position and a curve whose points all lie on the current position add
  nothing; a curve is stored as a cubic, three elements long, and a quadratic curve is
  raised to a cubic before it is stored.
\<close>

type_synonym element = "nat \<times> real \<times> real"

definition element_of :: "nat \<Rightarrow> QPointF \<Rightarrow> element" where
  "element_of t p = (t, px p, py p)"

definition point_of :: "element \<Rightarrow> QPointF" where
  "point_of e = QPointF (fst (snd e)) (snd (snd e))"

definition ensureData :: "element list \<Rightarrow> element list" where
  "ensureData els = (if els = [] then [(0, 0, 0)] else els)"

definition add_cubic :: "QPointF \<Rightarrow> QPointF \<Rightarrow> QPointF \<Rightarrow> element list \<Rightarrow> element list" where
  "add_cubic c1 c2 e d =
    (if point_of (last d) = c1 \<and> c1 = c2 \<and> c2 = e then d
     else d @ [element_of 2 c1, element_of 3 c2, element_of 3 e])"

fun add_elements :: "path_cmd \<Rightarrow> element list \<Rightarrow> element list" where
  "add_elements (MoveTo p) els =
    (let d = ensureData els
     in if fst (last d) = 0 then butlast d @ [element_of 0 p] else d @ [element_of 0 p])"
| "add_elements (LineTo p) els =
    (let d = ensureData els
     in if p = point_of (last d) then d else d @ [element_of 1 p])"
| "add_elements (CubicTo c1 c2 e) els = add_cubic c1 c2 e (ensureData els)"
| "add_elements (QuadTo c e) els =
    (let d = ensureData els; prev = point_of (last d)
     in if prev = c \<and> c = e then d
        else
          let c1 = QPointF ((px prev + 2 * px c) / 3) ((py prev + 2 * py c) / 3);
              c2 = QPointF ((px e + 2 * px c) / 3) ((py e + 2 * py c) / 3)
          in add_cubic c1 c2 e d)"

definition path_elements :: "QPainterPath \<Rightarrow> element list" where
  "path_elements path = fold add_elements path []"

text \<open>
  What a call returns or raises, with the view as the call leaves it.
\<close>

datatype 'a outcome = Returned 'a DrawingView | Raised py_error DrawingView

text \<open>
  \<^verbatim>\<open>save_canvas_to_file\<close>. \<open>can_open\<close> says whether
  \<^verbatim>\<open>file.open(QFile.WriteOnly)\<close> succeeds; the result carries the fields written.
\<close>

fun write_elements :: "element list \<Rightarrow> QDataStream \<Rightarrow> QDataStream" where
  "write_elements [] stream = stream"
| "write_elements ((elem_type, x, y) # rest) stream =
    write_elements rest (writeDouble y (writeDouble x (writeUInt8 elem_type stream)))"

fun write_pins :: "pin list \<Rightarrow> QDataStream \<Rightarrow> py_error + QDataStream" where
  "write_pins [] stream = Inr stream"
| "write_pins (p # rest) stream =
    (case utf8_encode (pin_name p) of
       None \<Rightarrow> Inl UnicodeEncodeError
     | Some name_bytes \<Rightarrow>
         write_pins rest
           (writeDouble (py (pin_pos p)) (writeDouble (px (pin_pos p))
             (writeRawData name_bytes (writeUInt32 (length name_bytes) stream)))))"

definition save_canvas_to_file :: "Qt \<Rightarrow> bool \<Rightarrow> DrawingView \<Rightarrow> (bool \<times> QDataStream) outcome" where
  "save_canvas_to_file qt can_open s =
    (if \<not> can_open then Returned (False, []) s
     else
       let raster_bytes = png_save qt (raster_pixmap s);
           stream1 = writeBytes raster_bytes (writeUInt32 (length raster_bytes) []);
           elements = path_elements (vector_path s);
           stream2 = write_elements elements (writeUInt32 (length elements) stream1)
       in case write_pins (pins s) (writeUInt32 (length (pins s)) stream2) of
            Inl e \<Rightarrow> Raised e s
          | Inr stream3 \<Rightarrow> Returned (True, writeBool (background_visible s) stream3) s)"

text \<open>
  \<^verbatim>\<open>load_canvas_from_file\<close>. Indexing a Python list out of range raises
  \<^verbatim>\<open>IndexError\<close>.
\<close>

definition py_index :: "'a list \<Rightarrow> nat \<Rightarrow> py_error + 'a" where
  "py_index xs i = (if i < length xs then Inr (xs ! i) else Inl IndexError)"

fun read_elements :: "nat \<Rightarrow> QDataStream \<Rightarrow> element list \<times> QDataStream" where
  "read_elements 0 stream = ([], stream)"
| "read_elements (Suc n) stream =
    (let (elem_type, stream1) = readUInt8 stream;
         (x, stream2) = readDouble stream1;
         (y, stream3) = readDouble stream2;
         (rest, stream4) = read_elements n stream3
     in ((elem_type, x, y) # rest, stream4))"

function rebuild_path :: "element list \<Rightarrow> nat \<Rightarrow> QPainterPath \<Rightarrow> py_error + QPainterPath" where
  "rebuild_path elements i path =
    (if i < length elements then
       (case py_index elements i of
          Inl err \<Rightarrow> Inl err
        | Inr (elem_type, x, y) \<Rightarrow>
            if elem_type = 0 then rebuild_path elements (i + 1) (moveTo (QPointF x y) path)
            else if elem_type = 1 then rebuild_path elements (i + 1) (lineTo (QPointF x y) path)
            else if elem_type = 2 then
              (if i + 2 < length elements then
                 (case py_index elements (i + 1) of
                    Inl err \<Rightarrow> Inl err
                  | Inr (t2, ctrl2_x, ctrl2_y) \<Rightarrow>
                      (case py_index elements (i + 1 + 1) of
                         Inl err \<Rightarrow> Inl err
                       | Inr (t3, end_x, end_y) \<Rightarrow>
                           rebuild_path elements (i + 1 + 1 + 1)
                             (cubicTo (QPointF x y) (QPointF ctrl2_x ctrl2_y)
                                (QPointF end_x end_y) path)))
               else Inr path)
            else rebuild_path elements (i + 1) path)
     else Inr path)"
  by pat_completeness auto
termination
  by (relation "measure (\<lambda>(elements, i, path). length elements - i)") auto

declare rebuild_path.simps [simp del]

fun read_pins :: "nat \<Rightarrow> QDataStream \<Rightarrow> DrawingView \<Rightarrow> (DrawingView \<times> QDataStream) outcome" where
  "read_pins 0 stream s = Returned (s, stream) s"
| "read_pins (Suc n) stream s =
    (let (name_length, stream1) = readUInt32 stream;
         (name_bytes, stream2) = readRawData name_length stream1
     in case utf8_decode name_bytes of
          None \<Rightarrow> Raised UnicodeDecodeError s
        | Some name \<Rightarrow>
            let (x, stream3) = readDouble stream2;
                (y, stream4) = readDouble stream3
            in read_pins n stream4 (s\<lparr>pins := pins s @ [\<lparr>pin_name = name, pin_pos = QPointF x y\<rparr>]\<rparr>))"

definition null_pixmap :: QPixmap where
  "null_pixmap = new_pixmap 0 0"

definition load_canvas_from_file :: "Qt \<Rightarrow> QDataStream option \<Rightarrow> DrawingView \<Rightarrow> bool outcome" where
  "load_canvas_from_file qt file s =
    (case file of
       None \<Rightarrow> Returned False s
     | Some stream \<Rightarrow>
         let (raster_size, stream1) = readUInt32 stream;
             (raster_data, stream2) = readBytes stream1;
             raster_image = (case png_load qt raster_data of
                               None \<Rightarrow> null_pixmap | Some img \<Rightarrow> img);
             s1 = s\<lparr>raster_pixmap := raster_image\<rparr>;
             s2 = s1\<lparr>raster_bounding_rect := pixmap_rect (raster_pixmap s1)\<rparr>;
             (element_count, stream3) = readUInt32 stream2;
             (elements, stream4) = read_elements element_count stream3;
             s3 = s2\<lparr>vector_path := []\<rparr>
         in case rebuild_path elements 0 (vector_path s3) of
              Inl err \<Rightarrow> Raised err s3
            | Inr path \<Rightarrow>
                let s4 = s3\<lparr>vector_path := path\<rparr>;
                    (pin_count, stream5) = readUInt32 stream4
                in case read_pins pin_count stream5 (s4\<lparr>pins := []\<rparr>) of
                     Raised err s5 \<Rightarrow> Raised err s5
                   | Returned (s5, stream6) _ \<Rightarrow>
                       let (bg, stream7) = readBool stream6;
                           s6 = s5\<lparr>background_visible := bg\<rparr>;
                           s7 = s6\<lparr>background_color :=
                                     (if background_visible s6 then white else transparent)\<rparr>
                       in Returned True s7)"

section \<open>Notions used in the statements\<close>

text \<open>Whether an event comes from the stylus.\<close>

fun is_tablet_event :: "event \<Rightarrow> bool" where
  "is_tablet_event (Tablet e) = True"
| "is_tablet_event _ = False"

text \<open>
  The gesture invariant of the view: while a gesture is being drawn, at least its start
  point has been captured.
\<close>

definition gesture_inv :: "DrawingView \<Rightarrow> bool" where
  "gesture_inv s = (\<not> drawing s \<or> stroke_points s \<noteq> [])"

text \<open>The colour the binarisation gives a pixel of colour \<open>c\<close>.\<close>

definition binarized :: "QColor \<Rightarrow> QColor" where
  "binarized c = (if brightness c < 128 then black else white)"

text \<open>Sequences of registry operations.\<close>

datatype pin_op = AddPin pystr QPointF | RemovePin pystr

fun apply_pin_op :: "pin_op \<Rightarrow> DrawingView \<Rightarrow> DrawingView" where
  "apply_pin_op (AddPin name pos) s = add_pin name pos s"
| "apply_pin_op (RemovePin name) s = remove_pin name s"

definition run_pin_ops :: "pin_op list \<Rightarrow> DrawingView \<Rightarrow> DrawingView" where
  "run_pin_ops ops s = fold apply_pin_op ops s"

text \<open>
  The drawing calls the loading loop makes for an element list, and the element lists a
  \<^verbatim>\<open>QPainterPath\<close> can hold: after the element \<open>prev\<close>, a move does not follow a
  move, a line does not end where it starts, a curve is three elements long (types 2, 3
  and 3) and does not lie on one point; a list that is not empty starts with a move.
\<close>

fun cmds_of :: "element list \<Rightarrow> path_cmd list" where
  "cmds_of [] = []"
| "cmds_of ((t, x, y) # r) =
    (if t = 0 then MoveTo (QPointF x y) # cmds_of r
     else if t = 1 then LineTo (QPointF x y) # cmds_of r
     else if t = 2 then
       (case r of
          (t2, x2, y2) # (t3, x3, y3) # r' \<Rightarrow>
            CubicTo (QPointF x y) (QPointF x2 y2) (QPointF x3 y3) # cmds_of r'
        | _ \<Rightarrow> [])
     else cmds_of r)"





text \<open>
  A canvas file in the layout \<open>save_canvas_to_file\<close> writes, for any raster size field,
  raster bytes, element records and pin records (the bytes of the name, then the position),
  and the pins the loading loop makes of the pin records: those before the first name that
  is not UTF-8.
\<close>

fun pin_records :: "(8 word list \<times> real \<times> real) list \<Rightarrow> QDataStream" where
  "pin_records [] = []"
| "pin_records ((name_bytes, x, y) # rest) =
    [U32 (of_nat (length name_bytes)), Raw name_bytes, Dbl x, Dbl y] @ pin_records rest"

definition canvas_file ::
  "32 word \<Rightarrow> 8 word list \<Rightarrow> element list \<Rightarrow> (8 word list \<times> real \<times> real) list \<Rightarrow> bool
     \<Rightarrow> QDataStream" where
  "canvas_file raster_size raster_bytes els recs bg =
    [U32 raster_size, Bytes raster_bytes, U32 (of_nat (length els))] @ write_elements els []
    @ U32 (of_nat (length recs)) # pin_records recs @ [Bool bg]"

fun decode_pins :: "(8 word list \<times> real \<times> real) list \<Rightarrow> pin list" where
  "decode_pins [] = []"
| "decode_pins ((name_bytes, x, y) # rest) =
    (case utf8_decode name_bytes of
       None \<Rightarrow> []
     | Some name \<Rightarrow> \<lparr>pin_name = name, pin_pos = QPointF x y\<rparr> # decode_pins rest)"

definition names_decode :: "(8 word list \<times> real \<times> real) list \<Rightarrow> bool" where
  "names_decode recs = list_all (\<lambda>r. utf8_decode (fst r) \<noteq> None) recs"

text \<open>The counts, element types and name lengths of the records fit their fields.\<close>

definition file_fits :: "element list \<Rightarrow> (8 word list \<times> real \<times> real) list \<Rightarrow> bool" where
  "file_fits els recs =
    (length els < 2 ^ 32 \<and> list_all (\<lambda>e. fst e < 256) els
     \<and> length recs < 2 ^ 32 \<and> list_all (\<lambda>r. length (fst r) < 2 ^ 32) recs)"

text \<open>The raster buffer a load makes of the raster bytes of a file.\<close>

definition loaded_raster :: "Qt \<Rightarrow> 8 word list \<Rightarrow> QPixmap" where
  "loaded_raster qt raster_data =
    (case png_load qt raster_data of None \<Rightarrow> null_pixmap | Some img \<Rightarrow> img)"

section \<open>Values for evaluating the model\<close>

text \<open>
  A stand-in for the Qt parameters, for evaluating the model on concrete inputs: painting a
  path inks the pixel at the origin with the colour of the pen, painting a buffer onto
  another leaves it as it is, every path has the unit square as bounding rectangle, and the
  codec stores a canvas, blank or inked, in two bytes.
\<close>

definition blank_canvas :: QPixmap where
  "blank_canvas = fill transparent (new_pixmap 10000 10000)"

definition inked_canvas :: QPixmap where
  "inked_canvas = setPixelColor 0 0 black blank_canvas"

definition example_qt :: Qt where
  "example_qt =
    \<lparr>drawPath = (\<lambda>aa shift pn path pm. setPixelColor 0 0 (color_of pn) pm),
     drawPixmap = (\<lambda>shift source pm. pm),
     copy_rect = (\<lambda>r pm. pm),
     boundingRect = (\<lambda>path. QRectF 0 0 1 1),
     png_save = (\<lambda>pm. if pixelColor pm 0 0 = black then [137, 1] else [137, 0]),
     png_load = (\<lambda>bs. if bs = [137, 1] then Some inked_canvas
                       else if bs = [137, 0] then Some blank_canvas else None)\<rparr>"

text \<open>
  A document with one stroke of three points, drawn with the stylus at full pressure, and
  a second pin.
\<close>

definition example_stroke :: "event list" where
  "example_stroke =
    [tablet_press (QPointF 0 0) 1, tablet_move (QPointF 1 0, 1), tablet_move (QPointF 2 1, 1),
     tablet_release (QPointF 2 1) 0]"

definition example_document :: DrawingView where
  "example_document =
    \<lparr>current_pen_width = 10, pen_color = black, pen = QPen black 10,
     last_points = [QPointF 0 0, QPointF 1 0, QPointF 2 1],
     drawing = False,
     vector_path = [MoveTo (QPointF 0 0), QuadTo (QPointF 1 0) (QPointF 2 1)],
     raster_pixmap = inked_canvas,
     background_visible = True, background_color = white,
     pins = [default_pin, \<lparr>pin_name = str ''home'', pin_pos = QPointF 3 4\<rparr>],
     use_tablet = True, antialiasing_enabled = False,
     stroke_points = [QPointF 0 0, QPointF 1 0, QPointF 2 1],
     stroke_pen_widths = [10, 10, 10], raster_bounding_rect = QRectF 0 0 1 1\<rparr>"

text \<open>
  A canvas file whose only pin has a name that is not UTF-8 (the single byte 255); its
  other fields are a blank raster, a path of one move, and the background flag off.
\<close>

definition bad_name_file :: QDataStream where
  "bad_name_file =
    [U32 2, Bytes [137, 0], U32 1, U8 0, Dbl 5, Dbl 6, U32 1, U32 1, Raw [255], Dbl 0, Dbl 0,
     Bool False]"


text \<open>
  A view whose export buffer has one pixel, and Qt parameters that paint that pixel in a
  given grey.
\<close>

definition grey_qt :: "nat \<Rightarrow> Qt" where
  "grey_qt g = example_qt\<lparr>drawPath := (\<lambda>aa shift pn path pm. setPixelColor 0 0 (QColor g g g 255) pm)\<rparr>"

section \<open>Pressure and pen width\<close>

lemma py_max_max: "py_max a b = max a b"
  by (simp add: py_max_def max_def)

lemma smooth_path_step:
  "last_points (smooth_path p s) = deque_append 3 (last_points s) p
   \<and> vector_path (smooth_path p s) = vector_path s @ emitted (deque_append 3 (last_points s) p)
   \<and> drawing (smooth_path p s) = drawing s
   \<and> use_tablet (smooth_path p s) = use_tablet s
   \<and> stroke_points (smooth_path p s) = stroke_points s
   \<and> stroke_pen_widths (smooth_path p s) = stroke_pen_widths s
   \<and> current_pen_width (smooth_path p s) = current_pen_width s
   \<and> pen (smooth_path p s) = pen s"
  by (simp add: smooth_path_def emitted_def quadTo_def Let_def split: list.split)

text \<open>
  Claim C9. At a stylus press, and at a stylus move while a gesture is being drawn, the pen
  width becomes \<open>max 1 (pressure * 10)\<close>: it is never below 1, it is the width recorded
  for the sample, and it is the width of the pen.
\<close>

theorem pen_width_from_pressure:
  assumes "tablet_type_of e = TabletPress \<or> (tablet_type_of e = TabletMove \<and> drawing s)"
  shows "\<exists>s'. tabletEvent qt e s = Inr s'
           \<and> current_pen_width s' = max 1 (pressure e * 10)
           \<and> 1 \<le> current_pen_width s'
           \<and> stroke_pen_widths s' \<noteq> []
           \<and> last (stroke_pen_widths s') = current_pen_width s'
           \<and> width_of (pen s') = current_pen_width s'"
  using assms
  by (auto simp: tabletEvent_def Let_def py_max_max update_pen_def smooth_path_step)

theorem pen_width_from_pressure_witness:
  "(\<exists>s'. tabletEvent example_qt
            \<lparr>tablet_type_of = TabletPress, posF = QPointF 0 0, pressure = 0.05\<rparr> fresh_view = Inr s'
         \<and> current_pen_width s' = 1)
   \<and> (\<exists>s'. tabletEvent example_qt
            \<lparr>tablet_type_of = TabletMove, posF = QPointF 1 1, pressure = 0.5\<rparr>
            (fresh_view\<lparr>drawing := True\<rparr>) = Inr s'
         \<and> current_pen_width s' = 5)"
proof -
  have a: "\<exists>s'. tabletEvent example_qt
            \<lparr>tablet_type_of = TabletPress, posF = QPointF 0 0, pressure = 0.05\<rparr> fresh_view = Inr s'
         \<and> current_pen_width s' = 1"
    using pen_width_from_pressure
      [of "\<lparr>tablet_type_of = TabletPress, posF = QPointF 0 0, pressure = 0.05\<rparr>"
          fresh_view example_qt]
    by auto
  have b: "\<exists>s'. tabletEvent example_qt
            \<lparr>tablet_type_of = TabletMove, posF = QPointF 1 1, pressure = 0.5\<rparr>
            (fresh_view\<lparr>drawing := True\<rparr>) = Inr s'
         \<and> current_pen_width s' = 5"
    using pen_width_from_pressure
      [of "\<lparr>tablet_type_of = TabletMove, posF = QPointF 1 1, pressure = 0.5\<rparr>"
          "fresh_view\<lparr>drawing := True\<rparr>" example_qt]
    by auto
  from a b show ?thesis by blast
qed

section \<open>The smoothing engine\<close>

lemma tablet_move_step:
  assumes "drawing s"
  shows "\<exists>s1. handle_event qt (tablet_move m) s = Inr s1 \<and> drawing s1
     \<and> last_points s1 = deque_append 3 (last_points s) (fst m)
     \<and> stroke_points s1 = stroke_points s @ [fst m]
     \<and> vector_path s1 = vector_path s @ emitted (deque_append 3 (last_points s) (fst m))"
  using assms
  by (simp add: tablet_move_def tabletEvent_def Let_def smooth_path_step update_pen_def)

lemma mouse_move_step:
  assumes "drawing s" and "\<not> use_tablet s"
  shows "\<exists>s1. handle_event qt (mouse_move p) s = Inr s1 \<and> drawing s1 \<and> \<not> use_tablet s1
     \<and> last_points s1 = deque_append 3 (last_points s) p
     \<and> stroke_points s1 = stroke_points s @ [p]
     \<and> vector_path s1 = vector_path s @ emitted (deque_append 3 (last_points s) p)"
  using assms
  by (simp add: mouse_move_def mouseMoveEvent_def Let_def smooth_path_step update_pen_def)

lemma tablet_moves_run:
  assumes "drawing s"
  shows "\<exists>s'. run_events qt (map tablet_move ms) s = Inr s'
      \<and> stroke_points s' = stroke_points s @ map fst ms
      \<and> vector_path s' = vector_path s @ window_run (last_points s) (map fst ms)"
  using assms
proof (induction ms arbitrary: s)
  case Nil
  then show ?case by simp
next
  case (Cons m ms)
  from tablet_move_step[OF Cons.prems, of qt m]
  obtain s1 where s1: "handle_event qt (tablet_move m) s = Inr s1" "drawing s1"
     "last_points s1 = deque_append 3 (last_points s) (fst m)"
     "stroke_points s1 = stroke_points s @ [fst m]"
     "vector_path s1 = vector_path s @ emitted (deque_append 3 (last_points s) (fst m))"
    by blast
  from Cons.IH[OF s1(2)] obtain s' where s': "run_events qt (map tablet_move ms) s1 = Inr s'"
      "stroke_points s' = stroke_points s1 @ map fst ms"
      "vector_path s' = vector_path s1 @ window_run (last_points s1) (map fst ms)"
    by blast
  show ?case using s1 s' by simp
qed

lemma mouse_moves_run:
  assumes "drawing s" and "\<not> use_tablet s"
  shows "\<exists>s'. run_events qt (map mouse_move ps) s = Inr s'
      \<and> stroke_points s' = stroke_points s @ ps
      \<and> vector_path s' = vector_path s @ window_run (last_points s) ps"
  using assms
proof (induction ps arbitrary: s)
  case Nil
  then show ?case by simp
next
  case (Cons p ps)
  from mouse_move_step[OF Cons.prems, of qt p]
  obtain s1 where s1: "handle_event qt (mouse_move p) s = Inr s1" "drawing s1" "\<not> use_tablet s1"
     "last_points s1 = deque_append 3 (last_points s) p"
     "stroke_points s1 = stroke_points s @ [p]"
     "vector_path s1 = vector_path s @ emitted (deque_append 3 (last_points s) p)"
    by blast
  from Cons.IH[OF s1(2,3)] obtain s' where s': "run_events qt (map mouse_move ps) s1 = Inr s'"
      "stroke_points s' = stroke_points s1 @ ps"
      "vector_path s' = vector_path s1 @ window_run (last_points s1) ps"
    by blast
  show ?case using s1 s' by simp
qed

lemma window_run_full: "window_run [a, b, c] ps = triples (b # c # ps)"
  by (induction ps arbitrary: a b c) (simp_all add: deque_append_def emitted_def)

lemma window_run_start: "window_run [a] ps = triples (a # ps)"
proof (cases ps)
  case Nil
  then show ?thesis by simp
next
  case (Cons b qs)
  show ?thesis
  proof (cases qs)
    case Nil
    then show ?thesis using Cons by (simp add: deque_append_def emitted_def)
  next
    case (Cons c rs)
    then show ?thesis using \<open>ps = b # qs\<close>
      by (simp add: deque_append_def emitted_def window_run_full)
  qed
qed

lemma length_triples: "length (triples pts) = length pts - 2"
  by (induction pts rule: triples.induct) simp_all

lemma nth_triples:
  "k < length pts - 2 \<Longrightarrow> triples pts ! k = QuadTo (pts ! (k + 1)) (pts ! (k + 2))"
proof (induction pts arbitrary: k rule: triples.induct)
  case (1 a b c r)
  then show ?case by (cases k) simp_all
qed simp_all

lemma triples_segments: "triples pts = segments_of pts"
  by (rule nth_equalityI) (simp_all add: length_triples nth_triples segments_of_def)

lemma tablet_stroke_path:
  "\<exists>s'. run_events qt (tablet_press p0 pr0 # map tablet_move moves) s = Inr s'
       \<and> stroke_points s' = p0 # map fst moves
       \<and> vector_path s' = vector_path s @ MoveTo p0 # segments_of (p0 # map fst moves)"
proof -
  obtain s0 where s0: "handle_event qt (tablet_press p0 pr0) s = Inr s0"
    "drawing s0" "last_points s0 = [p0]" "stroke_points s0 = [p0]"
    "vector_path s0 = vector_path s @ [MoveTo p0]"
    by (simp add: tablet_press_def tabletEvent_def Let_def update_pen_def deque_append_def moveTo_def)
  from tablet_moves_run[OF s0(2), of qt moves] obtain s' where
    s': "run_events qt (map tablet_move moves) s0 = Inr s'"
      "stroke_points s' = stroke_points s0 @ map fst moves"
      "vector_path s' = vector_path s0 @ window_run (last_points s0) (map fst moves)"
    by blast
  have "vector_path s' = vector_path s @ MoveTo p0 # segments_of (p0 # map fst moves)"
    using s' s0 by (simp add: window_run_start triples_segments)
  moreover have "run_events qt (tablet_press p0 pr0 # map tablet_move moves) s = Inr s'"
    using s0(1) s'(1) by simp
  moreover have "stroke_points s' = p0 # map fst moves" using s' s0 by simp
  ultimately show ?thesis by blast
qed

lemma mouse_stroke_path:
  assumes "\<not> use_tablet s"
  shows "\<exists>s'. run_events qt (mouse_press p0 # map mouse_move ps) s = Inr s'
       \<and> stroke_points s' = p0 # ps
       \<and> vector_path s' = vector_path s @ MoveTo p0 # segments_of (p0 # ps)"
proof -
  obtain s0 where s0: "handle_event qt (mouse_press p0) s = Inr s0"
    "drawing s0" "\<not> use_tablet s0" "last_points s0 = [p0]" "stroke_points s0 = [p0]"
    "vector_path s0 = vector_path s @ [MoveTo p0]"
    using assms
    by (simp add: mouse_press_def mousePressEvent_def Let_def update_pen_def deque_append_def moveTo_def)
  from mouse_moves_run[OF s0(2,3), of qt ps] obtain s' where
    s': "run_events qt (map mouse_move ps) s0 = Inr s'"
      "stroke_points s' = stroke_points s0 @ ps"
      "vector_path s' = vector_path s0 @ window_run (last_points s0) ps"
    by blast
  have "vector_path s' = vector_path s @ MoveTo p0 # segments_of (p0 # ps)"
    using s' s0 by (simp add: window_run_start triples_segments)
  moreover have "run_events qt (mouse_press p0 # map mouse_move ps) s = Inr s'"
    using s0(1) s'(1) by simp
  moreover have "stroke_points s' = p0 # ps" using s' s0 by simp
  ultimately show ?thesis by blast
qed

text \<open>
  Claim C1. A gesture of \<open>N \<ge> 3\<close> raw points (the start point of the press, then one
  point per move) runs without error and appends to the vector path one \<open>moveTo\<close> and
  exactly \<open>N - 2\<close> quadratic segments; the \<open>k\<close>-th segment has the middle point of
  the \<open>k\<close>-th consecutive triple as control point and its last point as end point. This
  holds for a stylus gesture in any state and for a mouse gesture while no stylus has been
  seen.
\<close>

theorem smoothing_emits_segments:
  assumes "pts = p0 # map fst moves" and "3 \<le> length pts"
  shows "(\<exists>s'. run_events qt (tablet_press p0 pr0 # map tablet_move moves) s = Inr s'
            \<and> stroke_points s' = pts
            \<and> vector_path s' = vector_path s @ MoveTo p0 # segments_of pts)
       \<and> (\<not> use_tablet s \<longrightarrow>
            (\<exists>s'. run_events qt (mouse_press p0 # map mouse_move (map fst moves)) s = Inr s'
              \<and> stroke_points s' = pts
              \<and> vector_path s' = vector_path s @ MoveTo p0 # segments_of pts))
       \<and> length (segments_of pts) = length pts - 2
       \<and> (\<forall>k < length pts - 2. segments_of pts ! k = QuadTo (pts ! (k + 1)) (pts ! (k + 2)))"
  using tablet_stroke_path[of qt p0 pr0 moves s] mouse_stroke_path[of s qt p0 "map fst moves"] assms
  by (simp add: segments_of_def)

theorem smoothing_emits_segments_witness:
  "\<exists>s'. run_events example_qt
       (tablet_press (QPointF 0 0) 1 #
        map tablet_move [(QPointF 1 0, 1), (QPointF 2 1, 1), (QPointF 3 3, 1)]) fresh_view = Inr s'
     \<and> vector_path s' =
         [MoveTo (QPointF 0 0), QuadTo (QPointF 1 0) (QPointF 2 1), QuadTo (QPointF 2 1) (QPointF 3 3)]"
proof -
  let ?moves = "[(QPointF 1 0, 1::real), (QPointF 2 1, 1), (QPointF 3 3, 1)]"
  let ?pts = "[QPointF 0 0, QPointF 1 0, QPointF 2 1, QPointF 3 3]"
  have h1: "?pts = QPointF 0 0 # map fst ?moves" by simp
  have h2: "3 \<le> length ?pts" by simp
  have v: "vector_path fresh_view = []" by (simp add: fresh_view_def)
  have seg: "segments_of ?pts = [QuadTo (QPointF 1 0) (QPointF 2 1), QuadTo (QPointF 2 1) (QPointF 3 3)]"
    by (simp add: segments_of_def upt_rec)
  from smoothing_emits_segments[OF h1 h2, of example_qt 1 fresh_view]
  obtain s' where r: "run_events example_qt (tablet_press (QPointF 0 0) 1 # map tablet_move ?moves)
        fresh_view = Inr s'"
    and p: "vector_path s' = vector_path fresh_view @ MoveTo (QPointF 0 0) # segments_of ?pts"
    by blast
  have "vector_path s' =
      [MoveTo (QPointF 0 0), QuadTo (QPointF 1 0) (QPointF 2 1), QuadTo (QPointF 2 1) (QPointF 3 3)]"
    using p by (simp add: v seg)
  with r show ?thesis by (intro exI[of _ s'] conjI)
qed

section \<open>Stylus latch and the raster compositor\<close>

lemma run_events_append:
  "run_events qt (xs @ ys) s =
     (case run_events qt xs s of Inl e \<Rightarrow> Inl e | Inr s1 \<Rightarrow> run_events qt ys s1)"
  by (induction xs arbitrary: s) (auto split: sum.splits)

lemma process_raster_stroke_ok:
  assumes "stroke_points s \<noteq> []"
  shows "\<exists>s'. process_raster_stroke qt s = Inr s'
     \<and> stroke_points s' = stroke_points s \<and> drawing s' = drawing s
     \<and> use_tablet s' = use_tablet s
     \<and> raster_pixmap s' =
         drawPath qt True (QPointF 0 0) (QPen (pen_color s) (current_pen_width s))
           (stroke_path (stroke_points s) (hd (stroke_points s))) (raster_pixmap s)"
  using assms
  by (cases "stroke_points s") (simp_all add: process_raster_stroke_def Let_def)

lemma process_raster_stroke_latch:
  "process_raster_stroke qt s = Inr s' \<Longrightarrow> use_tablet s' = use_tablet s"
  by (cases "stroke_points s") (auto simp: process_raster_stroke_def Let_def split: if_splits)

lemma tabletEvent_latch: "tabletEvent qt e s = Inr s' \<Longrightarrow> use_tablet s'"
  by (auto simp: tabletEvent_def Let_def update_pen_def smooth_path_step
           split: if_splits sum.splits dest!: process_raster_stroke_latch)

lemma mouse_ignored:
  assumes "use_tablet s" and "\<not> is_tablet_event e"
  shows "handle_event qt e s = Inr s"
  using assms
  by (cases e) (simp_all add: mousePressEvent_def mouseMoveEvent_def mouseReleaseEvent_def)

lemma latch_kept:
  assumes "use_tablet s" and "handle_event qt e s = Inr s'"
  shows "use_tablet s'"
proof (cases "is_tablet_event e")
  case True
  then obtain te where "e = Tablet te" by (cases e) auto
  with assms(2) show ?thesis by (auto dest: tabletEvent_latch)
next
  case False
  with assms mouse_ignored[of s e qt] show ?thesis by simp
qed

lemma run_latched:
  assumes "use_tablet s"
  shows "run_events qt es s = run_events qt (filter is_tablet_event es) s"
  using assms
proof (induction es arbitrary: s)
  case Nil
  then show ?case by simp
next
  case (Cons e es)
  show ?case
  proof (cases "is_tablet_event e")
    case False
    with Cons show ?thesis by (simp add: mouse_ignored)
  next
    case True
    show ?thesis
    proof (cases "handle_event qt e s")
      case (Inl err)
      with True show ?thesis by simp
    next
      case (Inr s1)
      with latch_kept[OF Cons.prems Inr] Cons.IH[of s1] True show ?thesis by simp
    qed
  qed
qed

lemma run_latch_kept:
  "use_tablet s \<Longrightarrow> run_events qt es s = Inr s' \<Longrightarrow> use_tablet s'"
proof (induction es arbitrary: s)
  case Nil
  then show ?case by simp
next
  case (Cons e es)
  then show ?case by (auto split: sum.splits dest: latch_kept)
qed

text \<open>
  Claim C5. Once a stylus event has been handled, mouse events are ignored: a mouse press,
  move or release leaves the view as it is (no stroke is started, extended or committed),
  the latch stays set for the rest of the run, and the whole run ends exactly as it would
  with every later mouse event taken out.
\<close>

theorem mouse_ignored_after_stylus:
  "(use_tablet s \<longrightarrow>
      mousePressEvent me s = Inr s \<and> mouseMoveEvent me s = Inr s
      \<and> mouseReleaseEvent qt me s = Inr s)
   \<and> (tabletEvent qt te s = Inr s1 \<longrightarrow> use_tablet s1)
   \<and> (run_events qt (before @ Tablet te # after) s = Inr s2 \<longrightarrow> use_tablet s2)
   \<and> run_events qt (before @ Tablet te # after) s
       = run_events qt (before @ Tablet te # filter is_tablet_event after) s"
proof -
  have a: "use_tablet s \<longrightarrow>
      mousePressEvent me s = Inr s \<and> mouseMoveEvent me s = Inr s
      \<and> mouseReleaseEvent qt me s = Inr s"
    by (simp add: mousePressEvent_def mouseMoveEvent_def mouseReleaseEvent_def)
  have b: "tabletEvent qt te s = Inr s1 \<longrightarrow> use_tablet s1"
    by (auto dest: tabletEvent_latch)
  have d: "run_events qt (before @ Tablet te # after) s
       = run_events qt (before @ Tablet te # filter is_tablet_event after) s"
  proof (cases "run_events qt before s")
    case (Inl err)
    then show ?thesis by (simp add: run_events_append)
  next
    case (Inr sa)
    show ?thesis
    proof (cases "tabletEvent qt te sa")
      case (Inl err)
      with Inr show ?thesis by (simp add: run_events_append)
    next
      case r: (Inr sb)
      from tabletEvent_latch[OF r] have "use_tablet sb" .
      from run_latched[OF this, of qt after] Inr r show ?thesis
        by (simp add: run_events_append)
    qed
  qed
  have c: "run_events qt (before @ Tablet te # after) s = Inr s2 \<longrightarrow> use_tablet s2"
  proof
    assume h: "run_events qt (before @ Tablet te # after) s = Inr s2"
    then obtain sa where sa: "run_events qt before s = Inr sa"
      by (cases "run_events qt before s") (simp_all add: run_events_append)
    with h obtain sb where sb: "tabletEvent qt te sa = Inr sb" "run_events qt after sb = Inr s2"
      by (cases "tabletEvent qt te sa") (simp_all add: run_events_append)
    from run_latch_kept[OF tabletEvent_latch[OF sb(1)] sb(2)] show "use_tablet s2" .
  qed
  from a b c d show ?thesis by blast
qed

theorem mouse_ignored_after_stylus_witness:
  "run_events example_qt
      ([] @ tablet_press (QPointF 0 0) 1 #
       [mouse_press (QPointF 5 5), tablet_move (QPointF 1 0, 1), mouse_move (QPointF 6 6)])
      fresh_view
   = run_events example_qt
      ([] @ tablet_press (QPointF 0 0) 1 # [tablet_move (QPointF 1 0, 1)]) fresh_view"
  using mouse_ignored_after_stylus
    [of fresh_view "\<lparr>button = LeftButton, scene_pos = QPointF 5 5\<rparr>" example_qt
        "\<lparr>tablet_type_of = TabletPress, posF = QPointF 0 0, pressure = 1\<rparr>" fresh_view "[]"
        "[mouse_press (QPointF 5 5), tablet_move (QPointF 1 0, 1), mouse_move (QPointF 6 6)]"
        fresh_view]
  by (simp add: tablet_press_def tablet_move_def mouse_press_def mouse_move_def
        del: run_events.simps)

lemma handle_event_inv:
  assumes "gesture_inv s"
  shows "\<exists>s'. handle_event qt e s = Inr s' \<and> gesture_inv s'"
proof (cases e)
  case (Tablet te)
  show ?thesis
  proof (cases "tablet_type_of te = TabletRelease \<and> drawing s")
    case True
    with assms have "stroke_points s \<noteq> []" by (simp add: gesture_inv_def)
    then have "stroke_points (s\<lparr>use_tablet := True\<rparr>) \<noteq> []" by simp
    from process_raster_stroke_ok[OF this, of qt] obtain s1 where
      "process_raster_stroke qt (s\<lparr>use_tablet := True\<rparr>) = Inr s1" by blast
    with True Tablet show ?thesis
      by (simp add: tabletEvent_def Let_def gesture_inv_def)
  next
    case False
    with Tablet assms show ?thesis
      by (auto simp: tabletEvent_def Let_def gesture_inv_def update_pen_def smooth_path_step)
  qed
next
  case (MousePress me)
  with assms show ?thesis
    by (auto simp: mousePressEvent_def Let_def gesture_inv_def update_pen_def)
next
  case (MouseMove me)
  with assms show ?thesis
    by (auto simp: mouseMoveEvent_def Let_def gesture_inv_def update_pen_def smooth_path_step)
next
  case (MouseRelease me)
  show ?thesis
  proof (cases "\<not> use_tablet s \<and> button me = LeftButton \<and> drawing s")
    case True
    with assms have "stroke_points s \<noteq> []" by (simp add: gesture_inv_def)
    from process_raster_stroke_ok[OF this, of qt] obtain s1 where
      "process_raster_stroke qt s = Inr s1" by blast
    with True MouseRelease show ?thesis
      by (simp add: mouseReleaseEvent_def gesture_inv_def)
  next
    case False
    with MouseRelease assms show ?thesis
      by (auto simp: mouseReleaseEvent_def)
  qed
qed

lemma run_events_inv:
  assumes "gesture_inv s"
  shows "\<exists>s'. run_events qt es s = Inr s' \<and> gesture_inv s'"
  using assms
proof (induction es arbitrary: s)
  case Nil
  then show ?case by simp
next
  case (Cons e es)
  from handle_event_inv[OF Cons.prems, of qt e] obtain s1 where
    "handle_event qt e s = Inr s1" "gesture_inv s1" by blast
  with Cons.IH[of s1] show ?case by simp
qed

lemma load_pins_strokes:
  "load_pins entries s = Inr s' \<Longrightarrow>
     drawing s' = drawing s \<and> stroke_points s' = stroke_points s"
  by (induction entries s rule: load_pins.induct) (auto split: option.splits)

lemma init_view_inv:
  assumes "init_view cfg = Inr s"
  shows "gesture_inv s"
proof -
  have "drawing s = False"
    using assms
    by (auto simp: init_view_def load_settings_def load_view_def load_flags_def fresh_view_def
          Let_def split: option.splits sum.splits dest!: load_pins_strokes)
  then show ?thesis by (simp add: gesture_inv_def)
qed

text \<open>
  Claim C7, as the program has it. \<open>process_raster_stroke\<close> does not raise when at least
  one point was captured; with exactly one point it paints the path that holds only the
  \<open>moveTo\<close> of that point. The event handlers call it only while a gesture is being
  drawn, and from construction on a gesture being drawn has its start point captured, so
  no sequence of events makes the view raise.
\<close>

theorem compositor_never_raises_in_use:
  "(stroke_points s \<noteq> [] \<longrightarrow> (\<exists>s'. process_raster_stroke qt s = Inr s'))
   \<and> (stroke_points s = [p] \<longrightarrow>
        (\<exists>s'. process_raster_stroke qt s = Inr s'
          \<and> raster_pixmap s' =
              drawPath qt True (QPointF 0 0) (QPen (pen_color s) (current_pen_width s))
                [MoveTo p] (raster_pixmap s)))
   \<and> (init_view cfg = Inr s0 \<longrightarrow>
        (\<exists>s'. run_events qt es s0 = Inr s' \<and> (drawing s' \<longrightarrow> stroke_points s' \<noteq> [])))"
proof -
  have a: "stroke_points s \<noteq> [] \<longrightarrow> (\<exists>s'. process_raster_stroke qt s = Inr s')"
    using process_raster_stroke_ok[of s qt] by blast
  have b: "stroke_points s = [p] \<longrightarrow>
        (\<exists>s'. process_raster_stroke qt s = Inr s'
          \<and> raster_pixmap s' =
              drawPath qt True (QPointF 0 0) (QPen (pen_color s) (current_pen_width s))
                [MoveTo p] (raster_pixmap s))"
    using process_raster_stroke_ok[of s qt]
    by (auto simp: stroke_path_def moveTo_def)
  have c: "init_view cfg = Inr s0 \<longrightarrow>
        (\<exists>s'. run_events qt es s0 = Inr s' \<and> (drawing s' \<longrightarrow> stroke_points s' \<noteq> []))"
  proof
    assume "init_view cfg = Inr s0"
    from run_events_inv[OF init_view_inv[OF this], of qt es]
    show "\<exists>s'. run_events qt es s0 = Inr s' \<and> (drawing s' \<longrightarrow> stroke_points s' \<noteq> [])"
      by (auto simp: gesture_inv_def)
  qed
  from a b c show ?thesis by blast
qed

theorem compositor_never_raises_in_use_witness:
  "\<exists>s'. run_events example_qt [tablet_press (QPointF 2 3) 1, tablet_release (QPointF 2 3) 0]
          fresh_view = Inr s'"
proof -
  have "init_view None = Inr fresh_view"
    by (simp add: init_view_def load_settings_def)
  with compositor_never_raises_in_use
    [of fresh_view example_qt "QPointF 2 3" None fresh_view
        "[tablet_press (QPointF 2 3) 1, tablet_release (QPointF 2 3) 0]"]
  show ?thesis by blast
qed

text \<open>
  With no captured point, as in a view that has seen no press, the call itself raises
  \<^verbatim>\<open>IndexError\<close>.
\<close>

theorem compositor_raises_without_points:
  "stroke_points fresh_view = []
   \<and> process_raster_stroke example_qt fresh_view = Inl IndexError"
  by (simp add: process_raster_stroke_def fresh_view_def)

section \<open>Binarisation in raster export\<close>

lemma binarize_pixel_size:
  "img_width (binarize_pixel y x im) = img_width im
   \<and> img_height (binarize_pixel y x im) = img_height im"
  by (simp add: binarize_pixel_def setPixelColor_def Let_def)

lemma binarize_pixel_at:
  "img_pixel (binarize_pixel y x im) x' y' =
     (if x' = x \<and> y' = y \<and> x < img_width im \<and> y < img_height im
      then binarized (img_pixel im x y) else img_pixel im x' y')"
  by (simp add: binarize_pixel_def setPixelColor_def pixelColor_def Let_def binarized_def)

lemma binarize_row:
  "img_width (fold (binarize_pixel y) [0..<n] im) = img_width im
   \<and> img_height (fold (binarize_pixel y) [0..<n] im) = img_height im
   \<and> (\<forall>x' y'. img_pixel (fold (binarize_pixel y) [0..<n] im) x' y' =
        (if y' = y \<and> x' < n \<and> x' < img_width im \<and> y < img_height im
         then binarized (img_pixel im x' y') else img_pixel im x' y'))"
proof (induction n)
  case 0
  then show ?case by simp
next
  case (Suc n)
  let ?r = "fold (binarize_pixel y) [0..<n] im"
  have f: "fold (binarize_pixel y) [0..<Suc n] im = binarize_pixel y n ?r" by simp
  have size: "img_width ?r = img_width im" "img_height ?r = img_height im"
    using Suc by simp_all
  have px: "\<And>x' y'. img_pixel ?r x' y' =
        (if y' = y \<and> x' < n \<and> x' < img_width im \<and> y < img_height im
         then binarized (img_pixel im x' y') else img_pixel im x' y')"
    using Suc by simp
  show ?case
    unfolding f
    by (auto simp: binarize_pixel_size binarize_pixel_at size px less_Suc_eq)
qed

lemma binarize_rows:
  "img_width (fold (\<lambda>y cur. fold (binarize_pixel y) [0..<img_width cur] cur) [0..<m] im)
     = img_width im
   \<and> img_height (fold (\<lambda>y cur. fold (binarize_pixel y) [0..<img_width cur] cur) [0..<m] im)
     = img_height im
   \<and> (\<forall>x' y'. img_pixel
          (fold (\<lambda>y cur. fold (binarize_pixel y) [0..<img_width cur] cur) [0..<m] im) x' y' =
        (if y' < m \<and> y' < img_height im \<and> x' < img_width im
         then binarized (img_pixel im x' y') else img_pixel im x' y'))"
proof (induction m)
  case 0
  then show ?case by simp
next
  case (Suc m)
  let ?r = "fold (\<lambda>y cur. fold (binarize_pixel y) [0..<img_width cur] cur) [0..<m] im"
  have f: "fold (\<lambda>y cur. fold (binarize_pixel y) [0..<img_width cur] cur) [0..<Suc m] im
      = fold (binarize_pixel m) [0..<img_width ?r] ?r" by simp
  have size: "img_width ?r = img_width im" "img_height ?r = img_height im"
    using Suc by simp_all
  have px: "\<And>x' y'. img_pixel ?r x' y' =
        (if y' < m \<and> y' < img_height im \<and> x' < img_width im
         then binarized (img_pixel im x' y') else img_pixel im x' y')"
    using Suc by simp
  note row = binarize_row[of m "img_width ?r" ?r]
  show ?case
    unfolding f
    using row by (auto simp: size px less_Suc_eq)
qed

lemma binarize_image:
  "img_width (binarize im) = img_width im \<and> img_height (binarize im) = img_height im
   \<and> (\<forall>x y. img_pixel (binarize im) x y =
        (if y < img_height im \<and> x < img_width im
         then binarized (img_pixel im x y) else img_pixel im x y))"
  using binarize_rows[of "img_height im" im] by (simp add: binarize_def)

lemma brightness_threshold:
  "(brightness c < 128) = (red c + green c + blue c < 384)"
proof -
  have "(real (red c + green c + blue c) / 3 < 128) = (real (red c + green c + blue c) < 384)"
    by auto
  also have "\<dots> = (red c + green c + blue c < 384)"
    by (metis of_nat_less_iff of_nat_numeral)
  finally show ?thesis by (simp add: brightness_def)
qed

lemma save_raster_image_export:
  assumes "\<not> (isNull (united (boundingRect qt (vector_path s)) (raster_bounding_rect s))
            \<or> isEmpty (united (boundingRect qt (vector_path s)) (raster_bounding_rect s)))"
  shows "save_raster_image qt s
     = Some (binarize (render_export qt s
          (toAlignedRect (united (boundingRect qt (vector_path s)) (raster_bounding_rect s)))))"
  using assms by (simp add: save_raster_image_def Let_def)

lemma save_raster_image_nothing:
  assumes "isNull (united (boundingRect qt (vector_path s)) (raster_bounding_rect s))
            \<or> isEmpty (united (boundingRect qt (vector_path s)) (raster_bounding_rect s))"
  shows "save_raster_image qt s = None"
  using assms by (simp add: save_raster_image_def Let_def)

lemma binarize_threshold_pixels:
  "\<forall>x < img_width im. \<forall>y < img_height im.
        (128 \<le> brightness (pixelColor im x y) \<longrightarrow> pixelColor (binarize im) x y = white)
        \<and> (brightness (pixelColor im x y) < 128 \<longrightarrow> pixelColor (binarize im) x y = black)"
  using binarize_image[of im] by (simp add: pixelColor_def binarized_def)

text \<open>
  Claim C6. Whenever there is something to export (the union of the bounding rectangles is
  neither null nor empty), \<open>save_raster_image\<close> writes an image: the binarisation of the
  temporary buffer, of the same size, in which every pixel of the buffer is white when the
  average of its three colour channels is 128 or more and black when it is below 128. When
  there is nothing to export it writes nothing. Binarisation of any image keeps the size
  and sets every pixel by this rule, and the average is below 128 exactly when the channels
  sum to less than 384.
\<close>

theorem binarization_threshold:
  "(\<not> (isNull (united (boundingRect qt (vector_path s)) (raster_bounding_rect s))
         \<or> isEmpty (united (boundingRect qt (vector_path s)) (raster_bounding_rect s)))
      \<longrightarrow> (\<exists>out buffer.
            buffer = render_export qt s
              (toAlignedRect (united (boundingRect qt (vector_path s)) (raster_bounding_rect s)))
            \<and> save_raster_image qt s = Some out
            \<and> out = binarize buffer
            \<and> img_width out = img_width buffer \<and> img_height out = img_height buffer
            \<and> (\<forall>x < img_width buffer. \<forall>y < img_height buffer.
                  (128 \<le> brightness (pixelColor buffer x y) \<longrightarrow> pixelColor out x y = white)
                  \<and> (brightness (pixelColor buffer x y) < 128 \<longrightarrow> pixelColor out x y = black))))
   \<and> (isNull (united (boundingRect qt (vector_path s)) (raster_bounding_rect s))
         \<or> isEmpty (united (boundingRect qt (vector_path s)) (raster_bounding_rect s))
      \<longrightarrow> save_raster_image qt s = None)
   \<and> (save_raster_image qt s = Some out \<longrightarrow>
      out = binarize (render_export qt s
              (toAlignedRect (united (boundingRect qt (vector_path s)) (raster_bounding_rect s)))))
   \<and> img_width (binarize im) = img_width im
   \<and> img_height (binarize im) = img_height im
   \<and> (\<forall>x < img_width im. \<forall>y < img_height im.
        (128 \<le> brightness (pixelColor im x y) \<longrightarrow> pixelColor (binarize im) x y = white)
        \<and> (brightness (pixelColor im x y) < 128 \<longrightarrow> pixelColor (binarize im) x y = black))
   \<and> (brightness c < 128) = (red c + green c + blue c < 384)"
proof -
  let ?total = "united (boundingRect qt (vector_path s)) (raster_bounding_rect s)"
  let ?buffer = "render_export qt s (toAlignedRect ?total)"
  have a: "\<not> (isNull ?total \<or> isEmpty ?total)
      \<longrightarrow> (\<exists>out buffer.
            buffer = ?buffer
            \<and> save_raster_image qt s = Some out
            \<and> out = binarize buffer
            \<and> img_width out = img_width buffer \<and> img_height out = img_height buffer
            \<and> (\<forall>x < img_width buffer. \<forall>y < img_height buffer.
                  (128 \<le> brightness (pixelColor buffer x y) \<longrightarrow> pixelColor out x y = white)
                  \<and> (brightness (pixelColor buffer x y) < 128 \<longrightarrow> pixelColor out x y = black)))"
  proof
    assume h: "\<not> (isNull ?total \<or> isEmpty ?total)"
    from save_raster_image_export[OF h]
    have "save_raster_image qt s = Some (binarize ?buffer)" .
    moreover have "img_width (binarize ?buffer) = img_width ?buffer"
      "img_height (binarize ?buffer) = img_height ?buffer"
      using binarize_image[of ?buffer] by simp_all
    moreover note binarize_threshold_pixels[of ?buffer]
    ultimately show "\<exists>out buffer.
            buffer = ?buffer
            \<and> save_raster_image qt s = Some out
            \<and> out = binarize buffer
            \<and> img_width out = img_width buffer \<and> img_height out = img_height buffer
            \<and> (\<forall>x < img_width buffer. \<forall>y < img_height buffer.
                  (128 \<le> brightness (pixelColor buffer x y) \<longrightarrow> pixelColor out x y = white)
                  \<and> (brightness (pixelColor buffer x y) < 128 \<longrightarrow> pixelColor out x y = black))"
      by (intro exI[of _ "binarize ?buffer"] exI[of _ ?buffer] conjI) simp_all
  qed
  have b: "isNull ?total \<or> isEmpty ?total \<longrightarrow> save_raster_image qt s = None"
    using save_raster_image_nothing[of qt s] by blast
  have c: "save_raster_image qt s = Some out \<longrightarrow> out = binarize ?buffer"
    by (auto simp: save_raster_image_def Let_def split: if_splits)
  from a b c binarize_image[of im] binarize_threshold_pixels[of im] brightness_threshold[of c]
  show ?thesis by blast
qed

lemma export_of_grey:
  "\<not> (isNull (united (boundingRect (grey_qt g) (vector_path example_document))
             (raster_bounding_rect example_document))
       \<or> isEmpty (united (boundingRect (grey_qt g) (vector_path example_document))
             (raster_bounding_rect example_document)))
   \<and> img_width (render_export (grey_qt g) example_document
        (toAlignedRect (united (boundingRect (grey_qt g) (vector_path example_document))
             (raster_bounding_rect example_document)))) = 1
   \<and> img_height (render_export (grey_qt g) example_document
        (toAlignedRect (united (boundingRect (grey_qt g) (vector_path example_document))
             (raster_bounding_rect example_document)))) = 1
   \<and> pixelColor (render_export (grey_qt g) example_document
        (toAlignedRect (united (boundingRect (grey_qt g) (vector_path example_document))
             (raster_bounding_rect example_document)))) 0 0 = QColor g g g 255"
  by (simp add: grey_qt_def example_qt_def example_document_def united_def isNull_def
        isEmpty_def toAlignedRect_def render_export_def Let_def fill_def new_pixmap_def
        setPixelColor_def pixelColor_def)

theorem binarization_threshold_witness:
  "(\<exists>out. save_raster_image (grey_qt 128) example_document = Some out
       \<and> img_width out = 1 \<and> img_height out = 1 \<and> pixelColor out 0 0 = white)
   \<and> (\<exists>out. save_raster_image (grey_qt 127) example_document = Some out
       \<and> img_width out = 1 \<and> img_height out = 1 \<and> pixelColor out 0 0 = black)
   \<and> brightness (QColor 128 128 128 255) = 128 \<and> brightness (QColor 127 127 127 255) = 127"
proof -
  have b0: "brightness (QColor 128 128 128 255) = 128"
    and b1: "brightness (QColor 127 127 127 255) = 127"
    by (simp_all add: brightness_def)
  have export: "\<exists>out. save_raster_image (grey_qt g) example_document = Some out
       \<and> img_width out = 1 \<and> img_height out = 1
       \<and> (128 \<le> brightness (QColor g g g 255) \<longrightarrow> pixelColor out 0 0 = white)
       \<and> (brightness (QColor g g g 255) < 128 \<longrightarrow> pixelColor out 0 0 = black)" for g
  proof -
    let ?total = "united (boundingRect (grey_qt g) (vector_path example_document))
             (raster_bounding_rect example_document)"
    let ?buffer = "render_export (grey_qt g) example_document (toAlignedRect ?total)"
    from export_of_grey[of g] have ne: "\<not> (isNull ?total \<or> isEmpty ?total)"
      and w: "img_width ?buffer = 1" and h: "img_height ?buffer = 1"
      and px: "pixelColor ?buffer 0 0 = QColor g g g 255"
      by blast+
    from binarization_threshold[where qt = "grey_qt g" and s = example_document,
        THEN conjunct1, THEN mp, OF ne]
    obtain out where o: "save_raster_image (grey_qt g) example_document = Some out"
      and ow: "img_width out = img_width ?buffer" and oh: "img_height out = img_height ?buffer"
      and rule: "\<forall>x < img_width ?buffer. \<forall>y < img_height ?buffer.
                  (128 \<le> brightness (pixelColor ?buffer x y) \<longrightarrow> pixelColor out x y = white)
                  \<and> (brightness (pixelColor ?buffer x y) < 128 \<longrightarrow> pixelColor out x y = black)"
      by blast
    have "(0::nat) < img_width ?buffer" "(0::nat) < img_height ?buffer"
      unfolding w h by simp_all
    with rule have "(128 \<le> brightness (pixelColor ?buffer 0 0) \<longrightarrow> pixelColor out 0 0 = white)
        \<and> (brightness (pixelColor ?buffer 0 0) < 128 \<longrightarrow> pixelColor out 0 0 = black)"
      by blast
    then have "(128 \<le> brightness (QColor g g g 255) \<longrightarrow> pixelColor out 0 0 = white)
        \<and> (brightness (QColor g g g 255) < 128 \<longrightarrow> pixelColor out 0 0 = black)"
      unfolding px .
    with o ow oh w h show ?thesis by (intro exI[of _ out] conjI) simp_all
  qed
  from export[of 128] b0 have a: "\<exists>out. save_raster_image (grey_qt 128) example_document = Some out
       \<and> img_width out = 1 \<and> img_height out = 1 \<and> pixelColor out 0 0 = white"
    by auto
  from export[of 127] b1 have b: "\<exists>out. save_raster_image (grey_qt 127) example_document = Some out
       \<and> img_width out = 1 \<and> img_height out = 1 \<and> pixelColor out 0 0 = black"
    by auto
  from a b b0 b1 show ?thesis by (intro conjI)
qed

section \<open>The pin registry\<close>

lemma init_without_pins_section:
  assumes "init_view ini = Inr s" and "ini = None \<or> (\<exists>cfg. ini = Some cfg \<and> cfg_pins cfg = None)"
  shows "pins s = [default_pin]"
  using assms
  by (auto simp: init_view_def load_settings_def load_view_def load_flags_def fresh_view_def
        Let_def split: option.splits sum.splits)

lemma add_pin_keeps: "p \<in> set (pins s) \<Longrightarrow> p \<in> set (pins (add_pin name pos s))"
  by (simp add: add_pin_def)

lemma remove_pin_keeps:
  "p \<in> set (pins s) \<Longrightarrow> pin_name p \<noteq> name \<Longrightarrow> p \<in> set (pins (remove_pin name s))"
  by (simp add: remove_pin_def)

lemma run_pin_ops_keeps:
  assumes "p \<in> set (pins s)" and "RemovePin (pin_name p) \<notin> set ops"
  shows "p \<in> set (pins (run_pin_ops ops s))"
  using assms unfolding run_pin_ops_def
proof (induction ops arbitrary: s)
  case Nil
  then show ?case by simp
next
  case (Cons op ops)
  have "p \<in> set (pins (apply_pin_op op s))"
  proof (cases op)
    case (AddPin name pos)
    with Cons.prems show ?thesis by (simp add: add_pin_keeps)
  next
    case (RemovePin name)
    with Cons.prems have "pin_name p \<noteq> name" by auto
    with Cons.prems RemovePin show ?thesis by (simp add: remove_pin_keeps)
  qed
  with Cons show ?case by simp
qed

text \<open>
  Claim C8, as the program has it. A view constructed with no settings file, or with one
  that has no \<^verbatim>\<open>Pins\<close> section, holds exactly the default pin, named
  \<^verbatim>\<open>Default Pin\<close>, at (0, 0). \<open>add_pin\<close> keeps it; \<open>remove_pin\<close> keeps it
  when the name removed is another one; so it survives every sequence of \<open>add_pin\<close> and
  \<open>remove_pin\<close> that does not remove the name \<^verbatim>\<open>Default Pin\<close>.
\<close>

theorem default_pin_kept_unless_removed:
  "pin_pos default_pin = QPointF 0 0
   \<and> (init_view ini = Inr s0
        \<and> (ini = None \<or> (\<exists>cfg. ini = Some cfg \<and> cfg_pins cfg = None))
       \<longrightarrow> pins s0 = [default_pin])
   \<and> (default_pin \<in> set (pins s) \<longrightarrow> default_pin \<in> set (pins (add_pin name pos s)))
   \<and> (default_pin \<in> set (pins s) \<and> name \<noteq> str ''Default Pin''
       \<longrightarrow> default_pin \<in> set (pins (remove_pin name s)))
   \<and> (default_pin \<in> set (pins s) \<and> RemovePin (str ''Default Pin'') \<notin> set ops
       \<longrightarrow> default_pin \<in> set (pins (run_pin_ops ops s)))"
proof -
  have n: "pin_name default_pin = str ''Default Pin''" by (simp add: default_pin_def)
  have a: "pin_pos default_pin = QPointF 0 0" by (simp add: default_pin_def)
  have b: "init_view ini = Inr s0
        \<and> (ini = None \<or> (\<exists>cfg. ini = Some cfg \<and> cfg_pins cfg = None))
       \<longrightarrow> pins s0 = [default_pin]"
    using init_without_pins_section[of ini s0] by blast
  have c: "default_pin \<in> set (pins s) \<longrightarrow> default_pin \<in> set (pins (add_pin name pos s))"
    by (simp add: add_pin_keeps)
  have d: "default_pin \<in> set (pins s) \<and> name \<noteq> str ''Default Pin''
       \<longrightarrow> default_pin \<in> set (pins (remove_pin name s))"
    using remove_pin_keeps[of default_pin s name] n by auto
  have e: "default_pin \<in> set (pins s) \<and> RemovePin (str ''Default Pin'') \<notin> set ops
       \<longrightarrow> default_pin \<in> set (pins (run_pin_ops ops s))"
    using run_pin_ops_keeps[of default_pin s ops] n by auto
  from a b c d e show ?thesis by blast
qed

theorem default_pin_kept_unless_removed_witness:
  "default_pin \<in> set (pins (run_pin_ops
      [AddPin (str ''home'') (QPointF 3 4), RemovePin (str ''home'')] fresh_view))"
proof -
  have i: "init_view None = Inr fresh_view" by (simp add: init_view_def load_settings_def)
  have o: "RemovePin (str ''Default Pin'')
      \<notin> set [AddPin (str ''home'') (QPointF 3 4), RemovePin (str ''home'')]"
    by (simp add: str_def)
  from default_pin_kept_unless_removed
    [of None fresh_view fresh_view "str ''home''" "QPointF 3 4"
        "[AddPin (str ''home'') (QPointF 3 4), RemovePin (str ''home'')]"] i o
  show ?thesis by simp
qed

text \<open>
  Removing the name \<^verbatim>\<open>Default Pin\<close> from a freshly constructed view leaves the
  registry empty.
\<close>

theorem default_pin_removed:
  "init_view None = Inr fresh_view
   \<and> pins (run_pin_ops [RemovePin (str ''Default Pin'')] fresh_view) = []
   \<and> default_pin \<notin> set (pins (remove_pin (str ''Default Pin'') fresh_view))"
  by (simp add: init_view_def load_settings_def run_pin_ops_def remove_pin_def fresh_view_def
        default_pin_def)

section \<open>Saving leaves the document as it is\<close>

lemma save_outcomes:
  "save_canvas_to_file qt can_open s = Returned (False, []) s
   \<or> (\<exists>stream. save_canvas_to_file qt can_open s = Returned (True, stream) s)
   \<or> save_canvas_to_file qt can_open s = Raised UnicodeEncodeError s"
proof -
  have "\<And>ps st e. write_pins ps st = Inl e \<Longrightarrow> e = UnicodeEncodeError"
  proof -
    fix ps st e show "write_pins ps st = Inl e \<Longrightarrow> e = UnicodeEncodeError"
      by (induction ps st rule: write_pins.induct) (auto split: option.splits)
  qed
  then show ?thesis
    by (auto simp: save_canvas_to_file_def Let_def split: sum.splits)
qed

text \<open>
  Claim C10. Whatever \<open>save_canvas_to_file\<close> does (it returns \<open>False\<close> because the
  file cannot be opened, it returns \<open>True\<close>, or encoding a pin name raises), the view
  after the call is the view before it: vector path, raster buffer, raster bounding box,
  pin list and background flag are unchanged.
\<close>

theorem save_leaves_document:
  "(save_canvas_to_file qt can_open s = Returned r s' \<longrightarrow> s' = s)
   \<and> (save_canvas_to_file qt can_open s = Raised e s' \<longrightarrow> s' = s)
   \<and> (save_canvas_to_file qt can_open s = Returned r s'
        \<or> save_canvas_to_file qt can_open s = Raised e s'
       \<longrightarrow> vector_path s' = vector_path s \<and> raster_pixmap s' = raster_pixmap s
           \<and> raster_bounding_rect s' = raster_bounding_rect s \<and> pins s' = pins s
           \<and> background_visible s' = background_visible s)"
  using save_outcomes[of qt can_open s] by auto

theorem save_leaves_document_witness:
  "\<exists>stream. save_canvas_to_file example_qt True (add_pin [233] (QPointF 1 2) fresh_view)
      = Returned (True, stream) (add_pin [233] (QPointF 1 2) fresh_view)"
proof -
  let ?s = "add_pin [233] (QPointF 1 2) fresh_view"
  have "utf8_encode (str ''Default Pin'') \<noteq> None"
    by (simp add: str_def encode_code_point_def)
  moreover have "utf8_encode [233] \<noteq> None"
    by (simp add: encode_code_point_def)
  ultimately obtain stream s' where
    r: "save_canvas_to_file example_qt True ?s = Returned (True, stream) s'"
    by (auto simp: save_canvas_to_file_def Let_def add_pin_def fresh_view_def default_pin_def
          split: sum.splits option.splits)
  from save_leaves_document[of example_qt True ?s "(True, stream)" s'] r
  have "s' = ?s" by blast
  with r show ?thesis by blast
qed

section \<open>Rebuilding the vector path on load\<close>

lemma rebuild_path_total:
  "\<exists>added. rebuild_path elements i path = Inr (path @ added)"
proof (induction elements i path rule: rebuild_path.induct)
  case (1 elements i path)
  show ?case
  proof (cases "i < length elements")
    case False
    then show ?thesis by (subst rebuild_path.simps) simp
  next
    case True
    obtain t x y where e: "elements ! i = (t, x, y)" by (cases "elements ! i") auto
    have pi: "py_index elements i = Inr (t, x, y)" using True e by (simp add: py_index_def)
    consider (move) "t = 0" | (line) "t = 1" | (curve) "t = 2" "i + 2 < length elements"
      | (short) "t = 2" "\<not> i + 2 < length elements" | (other) "t \<noteq> 0" "t \<noteq> 1" "t \<noteq> 2"
      by blast
    then show ?thesis
    proof cases
      case move
      from "1.IH"(1)[OF True pi refl refl move]
      obtain added where "rebuild_path elements (i + 1) (moveTo (QPointF x y) path)
          = Inr (moveTo (QPointF x y) path @ added)" by blast
      then show ?thesis using True pi move
        by (subst rebuild_path.simps) (simp add: moveTo_def)
    next
      case line
      from "1.IH"(2)[OF True pi refl refl _ line]
      obtain added where "rebuild_path elements (i + 1) (lineTo (QPointF x y) path)
          = Inr (lineTo (QPointF x y) path @ added)" using line by auto
      then show ?thesis using True pi line
        by (subst rebuild_path.simps) (simp add: lineTo_def)
    next
      case curve
      obtain t2 x2 y2 where e2: "elements ! (i + 1) = (t2, x2, y2)"
        by (cases "elements ! (i + 1)") auto
      obtain t3 x3 y3 where e3: "elements ! (i + 1 + 1) = (t3, x3, y3)"
        by (cases "elements ! (i + 1 + 1)") auto
      have p2: "py_index elements (i + 1) = Inr (t2, x2, y2)"
        using curve e2 by (simp add: py_index_def)
      have p3: "py_index elements (i + 1 + 1) = Inr (t3, x3, y3)"
        using curve e3 by (simp add: py_index_def)
      from "1.IH"(3)[OF True pi refl refl _ _ curve(1) curve(2) p2 refl refl p3 refl refl]
      obtain added where "rebuild_path elements (i + 1 + 1 + 1)
          (cubicTo (QPointF x y) (QPointF x2 y2) (QPointF x3 y3) path)
          = Inr (cubicTo (QPointF x y) (QPointF x2 y2) (QPointF x3 y3) path @ added)"
        using curve by auto
      then show ?thesis using True pi curve p2 p3
        by (subst rebuild_path.simps) (simp add: cubicTo_def)
    next
      case short
      then show ?thesis using True pi by (subst rebuild_path.simps) simp
    next
      case other
      from "1.IH"(4)[OF True pi refl refl other]
      obtain added where "rebuild_path elements (i + 1) path = Inr (path @ added)" by blast
      then show ?thesis using True pi other
        by (subst rebuild_path.simps) simp
    qed
  qed
qed




section \<open>The elements of a path survive loading\<close>

lemma cmds_of_short: "length r < 2 \<Longrightarrow> cmds_of ((2, x, y) # r) = []"
  by (auto split: list.splits)

lemma rebuild_path_cmds:
  "i \<le> length elements \<Longrightarrow> rebuild_path elements i path = Inr (path @ cmds_of (drop i elements))"
proof (induction elements i path rule: rebuild_path.induct)
  case (1 elements i path)
  show ?case
  proof (cases "i < length elements")
    case False
    then show ?thesis by (subst rebuild_path.simps) simp
  next
    case True
    obtain t x y where e: "elements ! i = (t, x, y)" by (cases "elements ! i") auto
    have pi: "py_index elements i = Inr (t, x, y)" using True e by (simp add: py_index_def)
    have d: "drop i elements = (t, x, y) # drop (i + 1) elements"
      using True e by (simp add: Cons_nth_drop_Suc[symmetric])
    consider (move) "t = 0" | (line) "t = 1" | (curve) "t = 2" "i + 2 < length elements"
      | (short) "t = 2" "\<not> i + 2 < length elements" | (other) "t \<noteq> 0" "t \<noteq> 1" "t \<noteq> 2"
      by blast
    then show ?thesis
    proof cases
      case move
      from "1.IH"(1)[OF True pi refl refl move] True
      have "rebuild_path elements (i + 1) (moveTo (QPointF x y) path)
          = Inr (moveTo (QPointF x y) path @ cmds_of (drop (i + 1) elements))" by simp
      then show ?thesis using True pi move d
        by (subst rebuild_path.simps) (simp add: moveTo_def)
    next
      case line
      from "1.IH"(2)[OF True pi refl refl _ line] True line
      have "rebuild_path elements (i + 1) (lineTo (QPointF x y) path)
          = Inr (lineTo (QPointF x y) path @ cmds_of (drop (i + 1) elements))" by simp
      then show ?thesis using True pi line d
        by (subst rebuild_path.simps) (simp add: lineTo_def)
    next
      case curve
      obtain t2 x2 y2 where e2: "elements ! (i + 1) = (t2, x2, y2)"
        by (cases "elements ! (i + 1)") auto
      obtain t3 x3 y3 where e3: "elements ! (i + 1 + 1) = (t3, x3, y3)"
        by (cases "elements ! (i + 1 + 1)") auto
      have p2: "py_index elements (i + 1) = Inr (t2, x2, y2)"
        using curve e2 by (simp add: py_index_def)
      have p3: "py_index elements (i + 1 + 1) = Inr (t3, x3, y3)"
        using curve e3 by (simp add: py_index_def)
      have d2: "drop (i + 1) elements = (t2, x2, y2) # (t3, x3, y3) # drop (i + 1 + 1 + 1) elements"
        using curve e2 e3 by (simp add: Cons_nth_drop_Suc[symmetric])
      from "1.IH"(3)[OF True pi refl refl _ _ curve(1) curve(2) p2 refl refl p3 refl refl] curve
      have "rebuild_path elements (i + 1 + 1 + 1)
          (cubicTo (QPointF x y) (QPointF x2 y2) (QPointF x3 y3) path)
          = Inr (cubicTo (QPointF x y) (QPointF x2 y2) (QPointF x3 y3) path
                 @ cmds_of (drop (i + 1 + 1 + 1) elements))"
        by simp
      then show ?thesis using True pi curve p2 p3 d d2
        by (subst rebuild_path.simps) (simp add: cubicTo_def)
    next
      case short
      have "length (drop (i + 1) elements) < 2" using short True by simp
      from cmds_of_short[OF this, of x y]
      have "cmds_of ((t, x, y) # drop (i + 1) elements) = []" using short(1) by simp
      then show ?thesis using True pi short d by (subst rebuild_path.simps) simp
    next
      case other
      from "1.IH"(4)[OF True pi refl refl other] True
      have "rebuild_path elements (i + 1) path = Inr (path @ cmds_of (drop (i + 1) elements))"
        by simp
      then show ?thesis using True pi other d
        by (subst rebuild_path.simps) simp
    qed
  qed
qed
















section \<open>UTF-8 and the fields of the stream\<close>

lemma unat_byte: "n < 256 \<Longrightarrow> unat (of_nat n :: 8 word) = n"
  by (simp add: unat_of_nat)













lemma unat_u32: "n < 2 ^ 32 \<Longrightarrow> unat (of_nat n :: 32 word) = n"
  by (simp add: unat_of_nat)

lemma write_elements_append:
  "write_elements els (st @ st') = st @ write_elements els st'"
  by (induction els st' rule: write_elements.induct)
     (simp_all add: writeUInt8_def writeDouble_def)

lemma write_elements_from:
  "write_elements els st = st @ write_elements els []"
  using write_elements_append[of els st "[]"] by simp

lemma read_written_elements:
  assumes "\<forall>e \<in> set els. fst e < 256"
  shows "read_elements (length els) (write_elements els [] @ rest) = (els, rest)"
  using assms
proof (induction els)
  case Nil
  then show ?case by simp
next
  case (Cons e els)
  obtain t x y where e: "e = (t, x, y)" by (cases e) auto
  from Cons.prems e have t: "unat (of_nat t :: 8 word) = t" by (simp add: unat_byte)
  have w: "write_elements (e # els) [] = [U8 (of_nat t), Dbl x, Dbl y] @ write_elements els []"
    unfolding e
    using write_elements_from[of els "[U8 (of_nat t), Dbl x, Dbl y]"]
    by (simp add: writeUInt8_def writeDouble_def)
  from Cons have ih: "read_elements (length els) (write_elements els [] @ rest) = (els, rest)"
    by simp
  show ?case unfolding w using ih t e by simp
qed




section \<open>Saving and loading a document\<close>





text \<open>The example document is what the example stroke and one more pin give.\<close>

lemma example_stroke_run:
  "run_events example_qt example_stroke fresh_view = Inr (example_document\<lparr>pins := [default_pin]\<rparr>)
   \<and> add_pin (str ''home'') (QPointF 3 4) (example_document\<lparr>pins := [default_pin]\<rparr>)
       = example_document"
  by (simp add: example_stroke_def tablet_press_def tablet_move_def tablet_release_def
        tabletEvent_def Let_def update_pen_def smooth_path_def deque_append_def moveTo_def
        quadTo_def process_raster_stroke_def stroke_path_def upt_rec py_max_def
        fresh_view_def example_qt_def example_document_def add_pin_def isNull_def
        null_rect_def inked_canvas_def blank_canvas_def)






section \<open>What a load makes of a canvas file\<close>

lemma read_pin_records:
  assumes "list_all (\<lambda>r. length (fst r) < 2 ^ 32) recs"
  shows "read_pins (length recs) (pin_records recs @ rest) s =
    (if names_decode recs
     then Returned (s\<lparr>pins := pins s @ decode_pins recs\<rparr>, rest)
            (s\<lparr>pins := pins s @ decode_pins recs\<rparr>)
     else Raised UnicodeDecodeError (s\<lparr>pins := pins s @ decode_pins recs\<rparr>))"
  using assms
proof (induction recs arbitrary: s)
  case Nil
  then show ?case by (simp add: names_decode_def)
next
  case (Cons r recs)
  obtain bs x y where r: "r = (bs, x, y)" by (cases r) auto
  from Cons.prems r have len: "length bs < 2 ^ 32"
    and fits: "list_all (\<lambda>r. length (fst r) < 2 ^ 32) recs"
    by simp_all
  have u: "unat (of_nat (length bs) :: 32 word) = length bs" by (rule unat_u32[OF len])
  show ?case
  proof (cases "utf8_decode bs")
    case None
    with r u show ?thesis by (simp add: names_decode_def)
  next
    case (Some name)
    note ih = Cons.IH[OF fits, of "s\<lparr>pins := pins s @ [\<lparr>pin_name = name, pin_pos = QPointF x y\<rparr>]\<rparr>"]
    from Some r u ih show ?thesis by (simp add: names_decode_def)
  qed
qed

lemma load_canvas_file:
  assumes "file_fits els recs"
  shows "load_canvas_from_file qt (Some (canvas_file rs rb els recs bg)) s =
    (if names_decode recs
     then Returned True
            (s\<lparr>raster_pixmap := loaded_raster qt rb,
               raster_bounding_rect := pixmap_rect (loaded_raster qt rb),
               vector_path := cmds_of els, pins := decode_pins recs,
               background_visible := bg,
               background_color := (if bg then white else transparent)\<rparr>)
     else Raised UnicodeDecodeError
            (s\<lparr>raster_pixmap := loaded_raster qt rb,
               raster_bounding_rect := pixmap_rect (loaded_raster qt rb),
               vector_path := cmds_of els, pins := decode_pins recs\<rparr>))"
proof -
  let ?tail = "U32 (of_nat (length recs)) # pin_records recs @ [Bool bg]"
  from assms have n_els: "length els < 2 ^ 32" and types: "\<forall>e \<in> set els. fst e < 256"
    and n_recs: "length recs < 2 ^ 32"
    and lens: "list_all (\<lambda>r. length (fst r) < 2 ^ 32) recs"
    by (simp_all add: file_fits_def list_all_iff)
  have re: "read_elements (length els) (write_elements els [] @ ?tail) = (els, ?tail)"
    by (rule read_written_elements[OF types])
  have rb: "rebuild_path els 0 [] = Inr (cmds_of els)"
    using rebuild_path_cmds[of 0 els "[]"] by simp
  have u1: "unat (of_nat (length els) :: 32 word) = length els" by (rule unat_u32[OF n_els])
  have u2: "unat (of_nat (length recs) :: 32 word) = length recs" by (rule unat_u32[OF n_recs])
  note rp = read_pin_records[OF lens, of "[Bool bg]"]
  show ?thesis
    by (simp add: load_canvas_from_file_def canvas_file_def Let_def loaded_raster_def
          u1 u2 re rb rp)
qed

lemma decode_pins_stop:
  assumes "names_decode good" and "utf8_decode bs = None"
  shows "decode_pins (good @ (bs, x, y) # later) = decode_pins good
     \<and> length (decode_pins good) = length good
     \<and> \<not> names_decode (good @ (bs, x, y) # later)"
  using assms
proof (induction good)
  case Nil
  then show ?case by (simp add: names_decode_def)
next
  case (Cons r good)
  obtain b u v where r: "r = (b, u, v)" by (cases r) auto
  from Cons.prems r obtain name where n: "utf8_decode b = Some name" and g: "names_decode good"
    by (auto simp: names_decode_def)
  from Cons.IH[OF g Cons.prems(2)] r n show ?case by (simp add: names_decode_def)
qed



section \<open>What a load replaces\<close>

lemma read_pins_independent:
  "(\<exists>ps st'. \<forall>s. read_pins n st s
        = Returned (s\<lparr>pins := pins s @ ps\<rparr>, st') (s\<lparr>pins := pins s @ ps\<rparr>))
   \<or> (\<exists>ps. \<forall>s. read_pins n st s = Raised UnicodeDecodeError (s\<lparr>pins := pins s @ ps\<rparr>))"
proof (induction n arbitrary: st)
  case 0
  have "\<forall>s. read_pins 0 st s = Returned (s\<lparr>pins := pins s @ []\<rparr>, st) (s\<lparr>pins := pins s @ []\<rparr>)"
    by simp
  then show ?case by blast
next
  case (Suc n)
  obtain name_length st1 where r1: "readUInt32 st = (name_length, st1)"
    by (cases "readUInt32 st") auto
  obtain name_bytes st2 where r2: "readRawData name_length st1 = (name_bytes, st2)"
    by (cases "readRawData name_length st1") auto
  show ?case
  proof (cases "utf8_decode name_bytes")
    case None
    then have "\<forall>s. read_pins (Suc n) st s = Raised UnicodeDecodeError (s\<lparr>pins := pins s @ []\<rparr>)"
      using r1 r2 by simp
    then show ?thesis by blast
  next
    case (Some name)
    obtain x st3 where r3: "readDouble st2 = (x, st3)" by (cases "readDouble st2") auto
    obtain y st4 where r4: "readDouble st3 = (y, st4)" by (cases "readDouble st3") auto
    let ?p = "\<lparr>pin_name = name, pin_pos = QPointF x y\<rparr>"
    have step: "\<And>s. read_pins (Suc n) st s = read_pins n st4 (s\<lparr>pins := pins s @ [?p]\<rparr>)"
      using r1 r2 r3 r4 Some by simp
    from Suc[of st4] show ?thesis
    proof
      assume "\<exists>ps st'. \<forall>s. read_pins n st4 s
        = Returned (s\<lparr>pins := pins s @ ps\<rparr>, st') (s\<lparr>pins := pins s @ ps\<rparr>)"
      then obtain ps st' where a: "\<And>s. read_pins n st4 s
        = Returned (s\<lparr>pins := pins s @ ps\<rparr>, st') (s\<lparr>pins := pins s @ ps\<rparr>)"
        by blast
      have "\<forall>s. read_pins (Suc n) st s
        = Returned (s\<lparr>pins := pins s @ (?p # ps)\<rparr>, st') (s\<lparr>pins := pins s @ (?p # ps)\<rparr>)"
        unfolding step a by simp
      then show ?thesis by blast
    next
      assume "\<exists>ps. \<forall>s. read_pins n st4 s = Raised UnicodeDecodeError (s\<lparr>pins := pins s @ ps\<rparr>)"
      then obtain ps where a: "\<And>s. read_pins n st4 s
          = Raised UnicodeDecodeError (s\<lparr>pins := pins s @ ps\<rparr>)"
        by blast
      have "\<forall>s. read_pins (Suc n) st s
          = Raised UnicodeDecodeError (s\<lparr>pins := pins s @ (?p # ps)\<rparr>)"
        unfolding step a by simp
      then show ?thesis by blast
    qed
  qed
qed

lemma load_opened:
  "(\<exists>img path ps bg. \<forall>s. load_canvas_from_file qt (Some stream) s
       = Returned True (s\<lparr>raster_pixmap := img, raster_bounding_rect := pixmap_rect img,
            vector_path := path, pins := ps, background_visible := bg,
            background_color := (if bg then white else transparent)\<rparr>))
   \<or> (\<exists>img path ps. \<forall>s. load_canvas_from_file qt (Some stream) s
       = Raised UnicodeDecodeError (s\<lparr>raster_pixmap := img,
            raster_bounding_rect := pixmap_rect img, vector_path := path, pins := ps\<rparr>))"
proof -
  obtain raster_size st1 where r1: "readUInt32 stream = (raster_size, st1)"
    by (cases "readUInt32 stream") auto
  obtain raster_data st2 where r2: "readBytes st1 = (raster_data, st2)"
    by (cases "readBytes st1") auto
  define img where "img = (case png_load qt raster_data of None \<Rightarrow> null_pixmap | Some i \<Rightarrow> i)"
  obtain element_count st3 where r3: "readUInt32 st2 = (element_count, st3)"
    by (cases "readUInt32 st2") auto
  obtain elements st4 where r4: "read_elements element_count st3 = (elements, st4)"
    by (cases "read_elements element_count st3") auto
  from rebuild_path_total[of elements 0 "[]"] obtain path where
    r5: "rebuild_path elements 0 [] = Inr path" by auto
  obtain pin_count st5 where r6: "readUInt32 st4 = (pin_count, st5)"
    by (cases "readUInt32 st4") auto
  let ?base = "\<lambda>s::DrawingView. s\<lparr>raster_pixmap := img, raster_bounding_rect := pixmap_rect img,
      vector_path := path, pins := []\<rparr>"
  have load: "\<And>s. load_canvas_from_file qt (Some stream) s =
      (case read_pins pin_count st5 (?base s) of
         Raised err s5 \<Rightarrow> Raised err s5
       | Returned (s5, stream6) t \<Rightarrow>
           Returned True (s5\<lparr>background_visible := fst (readBool stream6),
              background_color := (if fst (readBool stream6) then white else transparent)\<rparr>))"
    by (simp add: load_canvas_from_file_def Let_def r1 r2 r3 r4 r5 r6 img_def
          split: prod.splits outcome.splits)
  from read_pins_independent[of pin_count st5] show ?thesis
  proof
    assume "\<exists>ps st'. \<forall>s. read_pins pin_count st5 s
        = Returned (s\<lparr>pins := pins s @ ps\<rparr>, st') (s\<lparr>pins := pins s @ ps\<rparr>)"
    then obtain ps st' where a: "\<And>s. read_pins pin_count st5 s
        = Returned (s\<lparr>pins := pins s @ ps\<rparr>, st') (s\<lparr>pins := pins s @ ps\<rparr>)"
      by blast
    have "\<forall>s. load_canvas_from_file qt (Some stream) s
       = Returned True (s\<lparr>raster_pixmap := img, raster_bounding_rect := pixmap_rect img,
            vector_path := path, pins := ps, background_visible := fst (readBool st'),
            background_color := (if fst (readBool st') then white else transparent)\<rparr>)"
      unfolding load a by simp
    then show ?thesis by blast
  next
    assume "\<exists>ps. \<forall>s. read_pins pin_count st5 s
        = Raised UnicodeDecodeError (s\<lparr>pins := pins s @ ps\<rparr>)"
    then obtain ps where a: "\<And>s. read_pins pin_count st5 s
        = Raised UnicodeDecodeError (s\<lparr>pins := pins s @ ps\<rparr>)"
      by blast
    have "\<forall>s. load_canvas_from_file qt (Some stream) s
       = Raised UnicodeDecodeError (s\<lparr>raster_pixmap := img,
            raster_bounding_rect := pixmap_rect img, vector_path := path, pins := ps\<rparr>)"
      unfolding load a by simp
    then show ?thesis by blast
  qed
qed

lemma bad_name_load:
  "load_canvas_from_file example_qt (Some bad_name_file) example_document
     = Raised UnicodeDecodeError
         (example_document\<lparr>raster_pixmap := blank_canvas,
            raster_bounding_rect := QRectF 0 0 10000 10000,
            vector_path := [MoveTo (QPointF 5 6)], pins := []\<rparr>)"
  by (simp add: load_canvas_from_file_def Let_def bad_name_file_def example_qt_def
        rebuild_path_cmds pixmap_rect_def blank_canvas_def fill_def new_pixmap_def)

text \<open>
  Claim C3, as the program has it. \<open>load_canvas_from_file\<close> returns \<open>False\<close>, with
  the view unchanged, exactly when the file cannot be opened. Otherwise it replaces the
  raster buffer and its bounding box, then the vector path, then the pin list, then the
  background flag and colour, and what it leaves does not depend on what the view held. For
  a file in the layout of \<open>save_canvas_to_file\<close> whose counts, element types and name
  lengths fit their fields: when every pin name is valid UTF-8 the load returns \<open>True\<close>
  and the view holds the raster decoded from the raster bytes of the file, its rectangle as
  bounding box, the path rebuilt from the element records, the pins of the pin records and
  the flag of the file. When a pin name is not valid UTF-8 the load raises
  \<^verbatim>\<open>UnicodeDecodeError\<close>: the raster buffer, the bounding box and the vector path are
  already those of the file, the pin list holds the pins before the first such name, and
  the background flag and colour are still those of the view before. The load is not
  atomic.
\<close>

theorem load_replaces_in_steps:
  "load_canvas_from_file qt None s = Returned False s
   \<and> (load_canvas_from_file qt ini s = Returned False s' \<longrightarrow> ini = None \<and> s' = s)
   \<and> (load_canvas_from_file qt (Some stream) s = Returned r s' \<longrightarrow>
        r = True
        \<and> (\<forall>s2. \<exists>s2'. load_canvas_from_file qt (Some stream) s2 = Returned True s2'
              \<and> vector_path s2' = vector_path s' \<and> raster_pixmap s2' = raster_pixmap s'
              \<and> raster_bounding_rect s2' = raster_bounding_rect s' \<and> pins s2' = pins s'
              \<and> background_visible s2' = background_visible s'))
   \<and> (load_canvas_from_file qt (Some stream) s = Raised e s' \<longrightarrow>
        e = UnicodeDecodeError
        \<and> background_visible s' = background_visible s
        \<and> background_color s' = background_color s
        \<and> (\<forall>s2. \<exists>s2'. load_canvas_from_file qt (Some stream) s2 = Raised UnicodeDecodeError s2'
              \<and> vector_path s2' = vector_path s' \<and> raster_pixmap s2' = raster_pixmap s'
              \<and> raster_bounding_rect s2' = raster_bounding_rect s' \<and> pins s2' = pins s'))
   \<and> (file_fits els recs \<and> names_decode recs \<longrightarrow>
        load_canvas_from_file qt (Some (canvas_file rs rb els recs bg)) s
          = Returned True
              (s\<lparr>raster_pixmap := loaded_raster qt rb,
                 raster_bounding_rect := pixmap_rect (loaded_raster qt rb),
                 vector_path := cmds_of els, pins := decode_pins recs,
                 background_visible := bg,
                 background_color := (if bg then white else transparent)\<rparr>))
   \<and> (file_fits els recs \<and> \<not> names_decode recs \<longrightarrow>
        load_canvas_from_file qt (Some (canvas_file rs rb els recs bg)) s
          = Raised UnicodeDecodeError
              (s\<lparr>raster_pixmap := loaded_raster qt rb,
                 raster_bounding_rect := pixmap_rect (loaded_raster qt rb),
                 vector_path := cmds_of els, pins := decode_pins recs\<rparr>))
   \<and> (names_decode good \<and> utf8_decode bad = None \<longrightarrow>
        \<not> names_decode (good @ (bad, x, y) # later)
        \<and> decode_pins (good @ (bad, x, y) # later) = decode_pins good
        \<and> length (decode_pins good) = length good)"
proof -
  have a: "load_canvas_from_file qt None s = Returned False s"
    by (simp add: load_canvas_from_file_def)
  have c: "load_canvas_from_file qt (Some stream) s = Returned r s' \<longrightarrow>
        r = True
        \<and> (\<forall>s2. \<exists>s2'. load_canvas_from_file qt (Some stream) s2 = Returned True s2'
              \<and> vector_path s2' = vector_path s' \<and> raster_pixmap s2' = raster_pixmap s'
              \<and> raster_bounding_rect s2' = raster_bounding_rect s' \<and> pins s2' = pins s'
              \<and> background_visible s2' = background_visible s')"
    using load_opened[of qt stream]
  proof
    assume "\<exists>img path ps bg. \<forall>s. load_canvas_from_file qt (Some stream) s
       = Returned True (s\<lparr>raster_pixmap := img, raster_bounding_rect := pixmap_rect img,
            vector_path := path, pins := ps, background_visible := bg,
            background_color := (if bg then white else transparent)\<rparr>)"
    then obtain img path ps bg where l: "\<And>s. load_canvas_from_file qt (Some stream) s
       = Returned True (s\<lparr>raster_pixmap := img, raster_bounding_rect := pixmap_rect img,
            vector_path := path, pins := ps, background_visible := bg,
            background_color := (if bg then white else transparent)\<rparr>)"
      by blast
    show ?thesis unfolding l by auto
  next
    assume "\<exists>img path ps. \<forall>s. load_canvas_from_file qt (Some stream) s
       = Raised UnicodeDecodeError (s\<lparr>raster_pixmap := img,
            raster_bounding_rect := pixmap_rect img, vector_path := path, pins := ps\<rparr>)"
    then obtain img path ps where l: "\<And>s. load_canvas_from_file qt (Some stream) s
       = Raised UnicodeDecodeError (s\<lparr>raster_pixmap := img,
            raster_bounding_rect := pixmap_rect img, vector_path := path, pins := ps\<rparr>)"
      by blast
    show ?thesis unfolding l by simp
  qed
  have d: "load_canvas_from_file qt (Some stream) s = Raised e s' \<longrightarrow>
        e = UnicodeDecodeError
        \<and> background_visible s' = background_visible s
        \<and> background_color s' = background_color s
        \<and> (\<forall>s2. \<exists>s2'. load_canvas_from_file qt (Some stream) s2 = Raised UnicodeDecodeError s2'
              \<and> vector_path s2' = vector_path s' \<and> raster_pixmap s2' = raster_pixmap s'
              \<and> raster_bounding_rect s2' = raster_bounding_rect s' \<and> pins s2' = pins s')"
    using load_opened[of qt stream]
  proof
    assume "\<exists>img path ps bg. \<forall>s. load_canvas_from_file qt (Some stream) s
       = Returned True (s\<lparr>raster_pixmap := img, raster_bounding_rect := pixmap_rect img,
            vector_path := path, pins := ps, background_visible := bg,
            background_color := (if bg then white else transparent)\<rparr>)"
    then obtain img path ps bg where l: "\<And>s. load_canvas_from_file qt (Some stream) s
       = Returned True (s\<lparr>raster_pixmap := img, raster_bounding_rect := pixmap_rect img,
            vector_path := path, pins := ps, background_visible := bg,
            background_color := (if bg then white else transparent)\<rparr>)"
      by blast
    show ?thesis unfolding l by simp
  next
    assume "\<exists>img path ps. \<forall>s. load_canvas_from_file qt (Some stream) s
       = Raised UnicodeDecodeError (s\<lparr>raster_pixmap := img,
            raster_bounding_rect := pixmap_rect img, vector_path := path, pins := ps\<rparr>)"
    then obtain img path ps where l: "\<And>s. load_canvas_from_file qt (Some stream) s
       = Raised UnicodeDecodeError (s\<lparr>raster_pixmap := img,
            raster_bounding_rect := pixmap_rect img, vector_path := path, pins := ps\<rparr>)"
      by blast
    show ?thesis unfolding l by auto
  qed
  have b: "load_canvas_from_file qt ini s = Returned False s' \<longrightarrow> ini = None \<and> s' = s"
  proof (cases ini)
    case None
    with a show ?thesis by simp
  next
    case (Some st)
    from load_opened[of qt st] have "load_canvas_from_file qt (Some st) s \<noteq> Returned False s'"
      by auto
    with Some show ?thesis by simp
  qed
  have e: "file_fits els recs \<and> names_decode recs \<longrightarrow>
        load_canvas_from_file qt (Some (canvas_file rs rb els recs bg)) s
          = Returned True
              (s\<lparr>raster_pixmap := loaded_raster qt rb,
                 raster_bounding_rect := pixmap_rect (loaded_raster qt rb),
                 vector_path := cmds_of els, pins := decode_pins recs,
                 background_visible := bg,
                 background_color := (if bg then white else transparent)\<rparr>)"
    using load_canvas_file[of els recs qt rs rb bg s] by simp
  have f: "file_fits els recs \<and> \<not> names_decode recs \<longrightarrow>
        load_canvas_from_file qt (Some (canvas_file rs rb els recs bg)) s
          = Raised UnicodeDecodeError
              (s\<lparr>raster_pixmap := loaded_raster qt rb,
                 raster_bounding_rect := pixmap_rect (loaded_raster qt rb),
                 vector_path := cmds_of els, pins := decode_pins recs\<rparr>)"
    using load_canvas_file[of els recs qt rs rb bg s] by simp
  have g: "names_decode good \<and> utf8_decode bad = None \<longrightarrow>
        \<not> names_decode (good @ (bad, x, y) # later)
        \<and> decode_pins (good @ (bad, x, y) # later) = decode_pins good
        \<and> length (decode_pins good) = length good"
    using decode_pins_stop[of good bad x y later] by blast
  from a b c d have abcd: "load_canvas_from_file qt None s = Returned False s
   \<and> (load_canvas_from_file qt ini s = Returned False s' \<longrightarrow> ini = None \<and> s' = s)
   \<and> (load_canvas_from_file qt (Some stream) s = Returned r s' \<longrightarrow>
        r = True
        \<and> (\<forall>s2. \<exists>s2'. load_canvas_from_file qt (Some stream) s2 = Returned True s2'
              \<and> vector_path s2' = vector_path s' \<and> raster_pixmap s2' = raster_pixmap s'
              \<and> raster_bounding_rect s2' = raster_bounding_rect s' \<and> pins s2' = pins s'
              \<and> background_visible s2' = background_visible s'))
   \<and> (load_canvas_from_file qt (Some stream) s = Raised e s' \<longrightarrow>
        e = UnicodeDecodeError
        \<and> background_visible s' = background_visible s
        \<and> background_color s' = background_color s
        \<and> (\<forall>s2. \<exists>s2'. load_canvas_from_file qt (Some stream) s2 = Raised UnicodeDecodeError s2'
              \<and> vector_path s2' = vector_path s' \<and> raster_pixmap s2' = raster_pixmap s'
              \<and> raster_bounding_rect s2' = raster_bounding_rect s' \<and> pins s2' = pins s'))"
    by blast
  from abcd e f g show ?thesis by blast
qed


theorem load_replaces_in_steps_witness:
  "load_canvas_from_file example_qt None example_document = Returned False example_document
   \<and> load_canvas_from_file example_qt
        (Some (canvas_file 2 [137, 0] [(0, 5, 6)] [([104, 105], 1, 2)] False)) example_document
       = Returned True
           (example_document\<lparr>raster_pixmap := blank_canvas,
              raster_bounding_rect := QRectF 0 0 10000 10000,
              vector_path := [MoveTo (QPointF 5 6)],
              pins := [\<lparr>pin_name = [104, 105], pin_pos = QPointF 1 2\<rparr>],
              background_visible := False, background_color := transparent\<rparr>)
   \<and> canvas_file 2 [137, 0] [(0, 5, 6)] [([255], 0, 0)] False = bad_name_file
   \<and> load_canvas_from_file example_qt (Some bad_name_file) example_document
       = Raised UnicodeDecodeError
           (example_document\<lparr>raster_pixmap := blank_canvas,
              raster_bounding_rect := QRectF 0 0 10000 10000,
              vector_path := [MoveTo (QPointF 5 6)], pins := []\<rparr>)"
proof -
  have raster: "loaded_raster example_qt [137, 0] = blank_canvas"
    by (simp add: loaded_raster_def example_qt_def)
  have rect: "pixmap_rect blank_canvas = QRectF 0 0 10000 10000"
    by (simp add: pixmap_rect_def blank_canvas_def fill_def new_pixmap_def)
  have fits1: "file_fits [(0, 5, 6)] [([104, 105], 1, 2)]"
    and fits2: "file_fits [(0, 5, 6)] [([255], 0, 0)]"
    by (simp_all add: file_fits_def)
  have good: "names_decode [([104, 105], 1, 2)]"
    and pins1: "decode_pins [([104, 105], 1, 2)] = [\<lparr>pin_name = [104, 105], pin_pos = QPointF 1 2\<rparr>]"
    by (simp_all add: names_decode_def)
  have bad: "\<not> names_decode [([255], 0, 0)]" and pins2: "decode_pins [([255], 0, 0)] = []"
    by (simp_all add: names_decode_def)
  have same: "canvas_file 2 [137, 0] [(0, 5, 6)] [([255], 0, 0)] False = bad_name_file"
    by (simp add: canvas_file_def bad_name_file_def writeUInt8_def writeDouble_def)
  note t1 = load_replaces_in_steps[where qt = example_qt and s = example_document
      and els = "[(0, 5, 6)]" and recs = "[([104, 105], 1, 2)]" and rs = 2 and rb = "[137, 0]"
      and bg = False]
  note t2 = load_replaces_in_steps[where qt = example_qt and s = example_document
      and els = "[(0, 5, 6)]" and recs = "[([255], 0, 0)]" and rs = 2 and rb = "[137, 0]"
      and bg = False]
  have a: "load_canvas_from_file example_qt None example_document
      = Returned False example_document"
    using t1 by blast
  have b: "load_canvas_from_file example_qt
        (Some (canvas_file 2 [137, 0] [(0, 5, 6)] [([104, 105], 1, 2)] False)) example_document
       = Returned True
           (example_document\<lparr>raster_pixmap := blank_canvas,
              raster_bounding_rect := QRectF 0 0 10000 10000,
              vector_path := [MoveTo (QPointF 5 6)],
              pins := [\<lparr>pin_name = [104, 105], pin_pos = QPointF 1 2\<rparr>],
              background_visible := False, background_color := transparent\<rparr>)"
  proof -
    from t1 fits1 good have "load_canvas_from_file example_qt
        (Some (canvas_file 2 [137, 0] [(0, 5, 6)] [([104, 105], 1, 2)] False)) example_document
       = Returned True
           (example_document\<lparr>raster_pixmap := loaded_raster example_qt [137, 0],
              raster_bounding_rect := pixmap_rect (loaded_raster example_qt [137, 0]),
              vector_path := cmds_of [(0, 5, 6)],
              pins := decode_pins [([104, 105], 1, 2)],
              background_visible := False,
              background_color := (if False then white else transparent)\<rparr>)"
      by blast
    then show ?thesis unfolding raster rect pins1 by simp
  qed
  have c: "load_canvas_from_file example_qt (Some bad_name_file) example_document
       = Raised UnicodeDecodeError
           (example_document\<lparr>raster_pixmap := blank_canvas,
              raster_bounding_rect := QRectF 0 0 10000 10000,
              vector_path := [MoveTo (QPointF 5 6)], pins := []\<rparr>)"
  proof -
    from t2 fits2 bad have "load_canvas_from_file example_qt
        (Some (canvas_file 2 [137, 0] [(0, 5, 6)] [([255], 0, 0)] False)) example_document
       = Raised UnicodeDecodeError
           (example_document\<lparr>raster_pixmap := loaded_raster example_qt [137, 0],
              raster_bounding_rect := pixmap_rect (loaded_raster example_qt [137, 0]),
              vector_path := cmds_of [(0, 5, 6)],
              pins := decode_pins [([255], 0, 0)]\<rparr>)"
      by blast
    then show ?thesis unfolding raster rect pins2 same by simp
  qed
  from a b same c show ?thesis by (intro conjI)
qed

text \<open>
  Loading the file with the undecodable pin name into the example document raises, and the
  view it leaves is neither the view before (the vector path, the raster buffer, its
  bounding box and the pin list are replaced) nor a fully loaded one (the background flag of
  the file is not applied).
\<close>

theorem load_leaves_partial_state:
  "\<exists>s'. load_canvas_from_file example_qt (Some bad_name_file) example_document
           = Raised UnicodeDecodeError s'
      \<and> vector_path s' = [MoveTo (QPointF 5 6)]
      \<and> vector_path example_document = [MoveTo (QPointF 0 0), QuadTo (QPointF 1 0) (QPointF 2 1)]
      \<and> pins s' = [] \<and> length (pins example_document) = 2
      \<and> raster_bounding_rect s' = QRectF 0 0 10000 10000
      \<and> raster_bounding_rect example_document = QRectF 0 0 1 1
      \<and> background_visible s' \<and> last bad_name_file = Bool False
      \<and> s' \<noteq> example_document"
proof -
  let ?s = "example_document\<lparr>raster_pixmap := blank_canvas,
            raster_bounding_rect := QRectF 0 0 10000 10000,
            vector_path := [MoveTo (QPointF 5 6)], pins := []\<rparr>"
  have v: "vector_path example_document = [MoveTo (QPointF 0 0), QuadTo (QPointF 1 0) (QPointF 2 1)]"
    by (simp add: example_document_def)
  have "vector_path ?s \<noteq> vector_path example_document" unfolding v by simp
  then have ne: "?s \<noteq> example_document" by metis
  have rest: "pins ?s = []" "length (pins example_document) = 2"
    "raster_bounding_rect ?s = QRectF 0 0 10000 10000"
    "raster_bounding_rect example_document = QRectF 0 0 1 1"
    "background_visible ?s" "last bad_name_file = Bool False" "vector_path ?s = [MoveTo (QPointF 5 6)]"
    by (simp_all add: example_document_def bad_name_file_def)
  from bad_name_load ne rest v show ?thesis by (intro exI[of _ ?s] conjI)
qed

section \<open>A vector path cut inside a curve\<close>










end
